theory Spec2Isabelle
  imports Complex_Main
begin

section \<open>JavaScript numbers\<close>

text \<open>
  The source computes on JavaScript numbers, which are IEEE 754 binary64 values. A
  number is \<open>Fin x\<close> for a finite value \<open>x\<close> other than \<^verbatim>\<open>-0\<close> (\<open>Fin 0\<close> is \<^verbatim>\<open>+0\<close>),
  \<open>NZero\<close> for \<^verbatim>\<open>-0\<close>, or one of \<^verbatim>\<open>Infinity\<close>, \<^verbatim>\<open>-Infinity\<close>, \<^verbatim>\<open>NaN\<close>. The finite
  values of binary64 are the reals \<open>m * 2 ^ e\<close> with \<open>\<bar>m\<bar> < 2 ^ 53\<close> and
  \<open>- 1074 \<le> e \<le> 971\<close> (\<open>repr\<close> below). The type lets \<open>Fin\<close> hold any real; each of
  the four operations rounds, so that what it returns is a double (\<open>dbl\<close>) whatever
  its operands are, and a statement that needs an operand to be a double says so.
\<close>

datatype number = Fin real | NZero | PInf | NInf | NaN

subsection \<open>Rounding to nearest, ties to even\<close>

text \<open>
  \<open>expo a\<close> is the binary exponent of a magnitude \<open>a > 0\<close>, kept between \<open>- 1022\<close>
  (where the subnormal numbers begin) and \<open>1024\<close> (beyond the largest finite number):
  \<open>2 ^ expo a \<le> a < 2 ^ (expo a + 1)\<close> inside that range. The unit in the last place
  is \<open>2 ^ (expo a - 52)\<close>, which is \<open>2 ^ - 1074\<close> on the subnormal numbers. \<open>rhe q\<close> is the
  integer nearest to \<open>q\<close>, the even one on a tie. \<open>rnd r\<close> is the multiple of the unit
  nearest to \<open>r\<close>, the even one on a tie, an infinity when that multiple reaches
  \<open>2 ^ 1024\<close>, and a zero with the sign of \<open>r\<close> when the multiple is zero.
\<close>

definition pow2 :: "int \<Rightarrow> real" where
  "pow2 k = 2 powi k"

function expo_up :: "real \<Rightarrow> int \<Rightarrow> int" where
  "expo_up a k = (if 2 \<le> a \<and> k < 1024 then expo_up (a / 2) (k + 1) else k)"
  by pat_completeness auto
termination
  by (relation "measure (\<lambda>(a, k). nat (1024 - k))") auto

function expo_down :: "real \<Rightarrow> int \<Rightarrow> int" where
  "expo_down a k = (if a < 1 \<and> - 1022 < k then expo_down (a * 2) (k - 1) else k)"
  by pat_completeness auto
termination
  by (relation "measure (\<lambda>(a, k). nat (k + 1022))") auto

declare expo_up.simps [simp del] expo_down.simps [simp del]

definition expo :: "real \<Rightarrow> int" where
  "expo a = (if 1 \<le> a then expo_up a 0 else expo_down a 0)"

definition rhe :: "real \<Rightarrow> int" where
  "rhe q = (let f = \<lfloor>q\<rfloor>; d = q - of_int f
            in if d < 1 / 2 then f else if 1 / 2 < d then f + 1
               else if even f then f else f + 1)"

definition rnd :: "real \<Rightarrow> number" where
  "rnd r =
     (if r = 0 then Fin 0
      else let a = \<bar>r\<bar>;
               e = expo a - 52;
               n = rhe (a / pow2 e);
               m = of_int n * pow2 e
           in if pow2 1024 \<le> m then (if 0 < r then PInf else NInf)
              else if n = 0 then (if 0 < r then Fin 0 else NZero)
              else Fin (if 0 < r then m else - m))"

definition repr :: "real \<Rightarrow> bool" where
  "repr x \<longleftrightarrow> (\<exists>m e. x = of_int m * pow2 e \<and> \<bar>m\<bar> < 2 ^ 53 \<and> - 1074 \<le> e \<and> e \<le> 971)"

fun dbl :: "number \<Rightarrow> bool" where
  "dbl (Fin x) = repr x"
| "dbl NZero = True"
| "dbl PInf = True"
| "dbl NInf = True"
| "dbl NaN = True"

subsection \<open>The four operations\<close>

text \<open>
  \<^verbatim>\<open>+ - * /\<close> on numbers are \<open>+\<close>, \<open>-\<close>, \<open>*\<close> and \<open>div\<close>: the exact result, rounded.
  An exact zero sum is \<^verbatim>\<open>+0\<close> unless both terms are \<^verbatim>\<open>-0\<close>; \<^verbatim>\<open>a - b\<close> is
  \<^verbatim>\<open>a + (-b)\<close>; the sign of a product or quotient is the exclusive or of the signs;
  \<^verbatim>\<open>Infinity - Infinity\<close>, \<^verbatim>\<open>0 * Infinity\<close>, \<^verbatim>\<open>0 / 0\<close> and \<^verbatim>\<open>Infinity / Infinity\<close>
  are \<^verbatim>\<open>NaN\<close>, and a finite non-zero number divided by a zero is an infinity.
\<close>

fun is_zero :: "number \<Rightarrow> bool" where
  "is_zero (Fin x) = (x = 0)"
| "is_zero NZero = True"
| "is_zero PInf = False"
| "is_zero NInf = False"
| "is_zero NaN = False"

fun is_inf :: "number \<Rightarrow> bool" where
  "is_inf PInf = True"
| "is_inf NInf = True"
| "is_inf (Fin x) = False"
| "is_inf NZero = False"
| "is_inf NaN = False"

fun val :: "number \<Rightarrow> real" where
  "val (Fin x) = x"
| "val NZero = 0"
| "val PInf = 0"
| "val NInf = 0"
| "val NaN = 0"

fun neg :: "number \<Rightarrow> bool" where
  "neg (Fin x) = (x < 0)"
| "neg NZero = True"
| "neg PInf = False"
| "neg NInf = True"
| "neg NaN = False"

definition signed_zero :: "bool \<Rightarrow> number" where
  "signed_zero s = (if s then NZero else Fin 0)"

definition signed_inf :: "bool \<Rightarrow> number" where
  "signed_inf s = (if s then NInf else PInf)"

fun negate :: "number \<Rightarrow> number" where
  "negate (Fin x) = (if x = 0 then NZero else Fin (- x))"
| "negate NZero = Fin 0"
| "negate PInf = NInf"
| "negate NInf = PInf"
| "negate NaN = NaN"

instantiation number :: "{plus, minus, times, divide}"
begin

fun plus_number :: "number \<Rightarrow> number \<Rightarrow> number" where
  "Fin x + Fin y = rnd (x + y)"
| "Fin x + NZero = rnd x"
| "NZero + Fin y = rnd y"
| "NZero + NZero = NZero"
| "NaN + _ = NaN"
| "_ + NaN = NaN"
| "PInf + NInf = NaN"
| "NInf + PInf = NaN"
| "PInf + _ = PInf"
| "_ + PInf = PInf"
| "NInf + _ = NInf"
| "_ + NInf = NInf"

definition minus_number :: "number \<Rightarrow> number \<Rightarrow> number" where
  "a - b = a + negate b"

definition times_number :: "number \<Rightarrow> number \<Rightarrow> number" where
  "a * b =
     (if a = NaN \<or> b = NaN then NaN
      else if is_inf a \<or> is_inf b
        then (if is_zero a \<or> is_zero b then NaN else signed_inf (neg a \<noteq> neg b))
      else if val a * val b = 0 then signed_zero (neg a \<noteq> neg b)
      else rnd (val a * val b))"

definition divide_number :: "number \<Rightarrow> number \<Rightarrow> number" where
  "a div b =
     (if a = NaN \<or> b = NaN then NaN
      else if is_inf a then (if is_inf b then NaN else signed_inf (neg a \<noteq> neg b))
      else if is_inf b then signed_zero (neg a \<noteq> neg b)
      else if val b = 0 then (if val a = 0 then NaN else signed_inf (neg a \<noteq> neg b))
      else if val a = 0 then signed_zero (neg a \<noteq> neg b)
      else rnd (val a / val b))"

instance ..

end

text \<open>
  The comparison \<^verbatim>\<open>a != b\<close> of two numbers: \<^verbatim>\<open>NaN\<close> differs from every number,
  itself included, and the two zeros are equal.
\<close>

definition js_ne :: "number \<Rightarrow> number \<Rightarrow> bool" where
  "js_ne a b = (a = NaN \<or> b = NaN \<or> (a \<noteq> b \<and> \<not> (is_zero a \<and> is_zero b)))"

text \<open>
  \<^verbatim>\<open>Math.max(...xs)\<close> and \<^verbatim>\<open>Math.min(...xs)\<close>: \<^verbatim>\<open>NaN\<close> when an argument is
  \<^verbatim>\<open>NaN\<close>, \<^verbatim>\<open>-Infinity\<close> (\<^verbatim>\<open>Infinity\<close> for the minimum) on no argument. In their
  comparison \<^verbatim>\<open>-0\<close> is smaller than \<^verbatim>\<open>+0\<close>.
\<close>

fun js_less :: "number \<Rightarrow> number \<Rightarrow> bool" where
  "js_less (Fin x) (Fin y) = (x < y)"
| "js_less NZero (Fin y) = (0 \<le> y)"
| "js_less (Fin x) NZero = (x < 0)"
| "js_less NZero NZero = False"
| "js_less NaN _ = False"
| "js_less _ NaN = False"
| "js_less PInf _ = False"
| "js_less _ PInf = True"
| "js_less _ NInf = False"
| "js_less NInf _ = True"

definition max2 :: "number \<Rightarrow> number \<Rightarrow> number" where
  "max2 a b = (if a = NaN \<or> b = NaN then NaN else if js_less a b then b else a)"

definition min2 :: "number \<Rightarrow> number \<Rightarrow> number" where
  "min2 a b = (if a = NaN \<or> b = NaN then NaN else if js_less b a then b else a)"

definition Math_max :: "number list \<Rightarrow> number" where
  "Math_max xs = foldl max2 NInf xs"

definition Math_min :: "number list \<Rightarrow> number" where
  "Math_min xs = foldl min2 PInf xs"

text \<open>
  \<^verbatim>\<open>Math.round(x)\<close> is the integer \<open>\<lfloor>x + 1/2\<rfloor>\<close> (a tie goes up); it is \<^verbatim>\<open>-0\<close> for
  \<^verbatim>\<open>-0\<close> and for \<open>- 1/2 \<le> x < 0\<close>. For a double \<open>x\<close> this integer is a double
  (\<open>repr_Math_round\<close> below), so there is nothing to round.
\<close>

fun Math_round :: "number \<Rightarrow> number" where
  "Math_round (Fin x) = (if x < 0 \<and> - (1 / 2) \<le> x then NZero else Fin (of_int \<lfloor>x + 1 / 2\<rfloor>))"
| "Math_round NZero = NZero"
| "Math_round PInf = PInf"
| "Math_round NInf = NInf"
| "Math_round NaN = NaN"

section \<open>The centroid of a polygon\<close>

text \<open>\<^verbatim>\<open>type Coord = { lng: number; lat: number }\<close>\<close>

record Coord =
  lng :: number
  lat :: number

text \<open>
  What the program can raise. Only \<open>TypeError\<close> (a property read on
  \<^verbatim>\<open>undefined\<close> or \<^verbatim>\<open>null\<close>) and \<open>ExternalServiceError\<close> (an exception thrown
  by a call into the Earth Engine client) occur in the source; the other constructors
  are the error kinds the specification names.
\<close>

datatype error =
    TypeError
  | ExternalServiceError string
  | DegenerateGeometryError
  | NoImageFoundError
  | AuthenticationError string

text \<open>
  The loop of \<^verbatim>\<open>get_polygon_centroid\<close>,
  \<^verbatim>\<open>for (let i = 0, j = nPts - 1; i < nPts; j = i++)\<close>, with the three sums
  \<^verbatim>\<open>area\<close>, \<^verbatim>\<open>lng\<close>, \<^verbatim>\<open>lat\<close> as accumulator. Both reads \<^verbatim>\<open>pts[i]\<close> and
  \<^verbatim>\<open>pts[j]\<close> are in range: \<open>i < nPts\<close> and \<open>j\<close> is \<open>nPts - 1\<close> or the previous
  \<open>i\<close>.
\<close>

function centroid_loop ::
  "Coord list \<Rightarrow> Coord \<Rightarrow> nat \<Rightarrow> nat \<Rightarrow> nat \<Rightarrow> number \<times> number \<times> number
    \<Rightarrow> number \<times> number \<times> number" where
  "centroid_loop pts first nPts i j (area, lngSum, latSum) =
     (if i < nPts then
        let p1 = pts ! i;
            p2 = pts ! j;
            f = (lat p1 - lat first) * (lng p2 - lng first)
              - (lat p2 - lat first) * (lng p1 - lng first)
        in centroid_loop pts first nPts (i + 1) i
             (area + f,
              lngSum + (lng p1 + lng p2 - Fin 2 * lng first) * f,
              latSum + (lat p1 + lat p2 - Fin 2 * lat first) * f)
      else (area, lngSum, latSum))"
  by pat_completeness auto
termination
  by (relation "measure (\<lambda>(pts, first, nPts, i, j, acc). nPts - i)") auto

declare centroid_loop.simps [simp del]

text \<open>
  \<^verbatim>\<open>get_polygon_centroid(pts)\<close>. The array is the caller's: \<^verbatim>\<open>pts.push(first)\<close>
  changes it in place, so the model returns the array after the call beside the
  centroid. On an empty array \<^verbatim>\<open>first\<close> is \<^verbatim>\<open>undefined\<close> and \<^verbatim>\<open>first.lng\<close>
  throws a TypeError.
\<close>

definition get_polygon_centroid :: "Coord list \<Rightarrow> error + (Coord list \<times> Coord)" where
  "get_polygon_centroid pts =
     (case pts of
        [] \<Rightarrow> Inl TypeError
      | first # _ \<Rightarrow>
          let last_pt = pts ! (length pts - 1);
              pts' = (if js_ne (lng first) (lng last_pt) \<or> js_ne (lat first) (lat last_pt)
                      then pts @ [first] else pts);
              nPts = length pts';
              (area, lngSum, latSum) =
                 centroid_loop pts' first nPts 0 (nPts - 1) (Fin 0, Fin 0, Fin 0);
              f = area * Fin 3
          in Inr (pts', \<lparr>lng = lngSum div f + lng first, lat = latSum div f + lat first\<rparr>))"

section \<open>The Earth Engine client\<close>

text \<open>
  The package \<^verbatim>\<open>@google/earthengine\<close> is not part of the repository. The calls
  whose answers the source uses are parameters of the model:
  \<^item> \<^verbatim>\<open>ee.data.authenticateViaPrivateKey(devKey, success, error)\<close> calls exactly one
    of its two callbacks, once;
  \<^item> \<^verbatim>\<open>image.getInfo()\<close>, for the image
    \<^verbatim>\<open>l8.filterDate(dateStart, dateEnd).sort('CLOUD_COVER').first()\<close>, returns an
    object with a \<^verbatim>\<open>properties\<close> dictionary, or \<^verbatim>\<open>null\<close> when there is no image, or
    throws. The source calls it three times; the third argument is the number of the
    call;
  \<^item> \<^verbatim>\<open>vis.getThumbURL({dimensions, region})\<close> returns the URL or throws.
  The constructors of deferred objects (\<^verbatim>\<open>ee.Geometry.Point\<close>,
  \<^verbatim>\<open>ee.ImageCollection\<close>, \<^verbatim>\<open>filterDate\<close>, \<^verbatim>\<open>sort\<close>, \<^verbatim>\<open>first\<close>,
  \<^verbatim>\<open>ee.Image\<close>, \<^verbatim>\<open>visualize\<close>, \<^verbatim>\<open>ee.Geometry.Polygon\<close>, \<^verbatim>\<open>clip\<close>) and \<^verbatim>\<open>ee.initialize\<close>
  are taken to return; every call is recorded in the trace of the run.
\<close>

datatype auth_result = AuthSuccess | AuthFailure string

datatype 'a ext = Returns 'a | Throws string

datatype jsval = Undefined | Num number | Str string

record 'k earthengine =
  authenticateViaPrivateKey :: "'k \<Rightarrow> auth_result"
  getInfo :: "number \<Rightarrow> number \<Rightarrow> nat \<Rightarrow> (string \<Rightarrow> jsval) option ext"
  getThumbURL :: "number list \<Rightarrow> number list list \<Rightarrow> string ext"

datatype event =
    Ev_authenticateViaPrivateKey
  | Ev_runAnalysis
  | Ev_initialize
  | Ev_Point "number list"
  | Ev_ImageCollection string
  | Ev_filterDate number number
  | Ev_sort string
  | Ev_first
  | Ev_Image
  | Ev_visualize
  | Ev_Polygon "number list list"
  | Ev_clip
  | Ev_getInfo
  | Ev_getThumbURL "number list"

section \<open>runAnalysis\<close>

text \<open>The object \<^verbatim>\<open>ret\<close> that \<^verbatim>\<open>runAnalysis\<close> returns.\<close>

record result =
  width :: number
  height :: number
  centroid :: Coord
  bounds :: "Coord list"
  time_start :: jsval
  time_end :: jsval
  index :: jsval
  img_url :: string

text \<open>Lines 77 to 90 of the source: the ring, the extrema and the dimensions.\<close>

definition coord :: "Coord list \<Rightarrow> number list list" where
  "coord polygon = map (\<lambda>a. [lng a, lat a]) polygon"

definition coordLng :: "Coord list \<Rightarrow> number list" where
  "coordLng polygon = map lng polygon"

definition coordLat :: "Coord list \<Rightarrow> number list" where
  "coordLat polygon = map lat polygon"

definition maxLng :: "Coord list \<Rightarrow> number" where
  "maxLng polygon = Math_max (coordLng polygon)"

definition minLng :: "Coord list \<Rightarrow> number" where
  "minLng polygon = Math_min (coordLng polygon)"

definition maxLat :: "Coord list \<Rightarrow> number" where
  "maxLat polygon = Math_max (coordLat polygon)"

definition minLat :: "Coord list \<Rightarrow> number" where
  "minLat polygon = Math_min (coordLat polygon)"

definition deltaLng :: "Coord list \<Rightarrow> number" where
  "deltaLng polygon = maxLng polygon - minLng polygon"

definition deltaLat :: "Coord list \<Rightarrow> number" where
  "deltaLat polygon = maxLat polygon - minLat polygon"

definition dimensionLng :: "number \<Rightarrow> number" where
  "dimensionLng w = Math_round w"

definition dimensionLat :: "Coord list \<Rightarrow> number \<Rightarrow> number" where
  "dimensionLat polygon w = Math_round ((w * deltaLat polygon) div deltaLng polygon)"

text \<open>
  \<^verbatim>\<open>image.getInfo().properties[name]\<close>: a TypeError when \<^verbatim>\<open>getInfo()\<close> is
  \<^verbatim>\<open>null\<close>; there is no check before the read.
\<close>

definition image_property ::
  "'k earthengine \<Rightarrow> number \<Rightarrow> number \<Rightarrow> nat \<Rightarrow> string \<Rightarrow> error + jsval" where
  "image_property ee dateStart dateEnd k name =
     (case getInfo ee dateStart dateEnd k of
        Throws m \<Rightarrow> Inl (ExternalServiceError m)
      | Returns None \<Rightarrow> Inl TypeError
      | Returns (Some properties) \<Rightarrow> Inr (properties name))"

text \<open>
  \<^verbatim>\<open>runAnalysis\<close>, a closure over the arguments of \<^verbatim>\<open>ndviGen\<close>. It returns the
  caller's polygon array as the run leaves it, the calls made, and the object
  \<^verbatim>\<open>ret\<close> or the exception that ended the run. The ring \<^verbatim>\<open>coord\<close>, the extrema and
  the dimensions are computed from the array before the first call of
  \<^verbatim>\<open>get_polygon_centroid\<close>; \<^verbatim>\<open>centroidLng\<close> comes from the first call and
  \<^verbatim>\<open>centroidLat\<close> from a second call on the same array.
\<close>

definition runAnalysis ::
  "'k earthengine \<Rightarrow> Coord list \<Rightarrow> number \<Rightarrow> number \<Rightarrow> number
    \<Rightarrow> Coord list \<times> event list \<times> (error + result)" where
  "runAnalysis ee polygon w dateStart dateEnd =
     (let t0 = [Ev_runAnalysis, Ev_initialize] in
      case get_polygon_centroid polygon of
        Inl e \<Rightarrow> (polygon, t0, Inl e)
      | Inr (polygon1, c1) \<Rightarrow>
     (case get_polygon_centroid polygon1 of
        Inl e \<Rightarrow> (polygon1, t0, Inl e)
      | Inr (polygon2, c2) \<Rightarrow>
     (let centroidLng = lng c1;
          centroidLat = lat c2;
          t1 = t0 @ [Ev_Point [centroidLng, centroidLat],
                     Ev_ImageCollection ''LANDSAT/LC08/C01/T1_32DAY_NDVI'',
                     Ev_filterDate dateStart dateEnd, Ev_sort ''CLOUD_COVER'', Ev_first,
                     Ev_Image, Ev_visualize, Ev_Polygon (coord polygon), Ev_clip];
          t2 = t1 @ [Ev_getInfo]
      in case image_property ee dateStart dateEnd 0 ''system:time_start'' of
        Inl e \<Rightarrow> (polygon2, t2, Inl e)
      | Inr v_start \<Rightarrow>
     (let t3 = t2 @ [Ev_getInfo]
      in case image_property ee dateStart dateEnd 1 ''system:time_end'' of
        Inl e \<Rightarrow> (polygon2, t3, Inl e)
      | Inr v_end \<Rightarrow>
     (let t4 = t3 @ [Ev_getInfo]
      in case image_property ee dateStart dateEnd 2 ''system:index'' of
        Inl e \<Rightarrow> (polygon2, t4, Inl e)
      | Inr v_index \<Rightarrow>
     (let dims = [dimensionLng w, dimensionLat polygon w];
          t5 = t4 @ [Ev_Polygon (coord polygon), Ev_getThumbURL dims]
      in case getThumbURL ee dims (coord polygon) of
        Throws m \<Rightarrow> (polygon2, t5, Inl (ExternalServiceError m))
      | Returns urlImg \<Rightarrow>
          (polygon2, t5,
           Inr \<lparr>width = dimensionLng w,
                height = dimensionLat polygon w,
                centroid = \<lparr>lng = centroidLng, lat = centroidLat\<rparr>,
                bounds = [\<lparr>lng = maxLng polygon, lat = maxLat polygon\<rparr>,
                          \<lparr>lng = minLng polygon, lat = minLat polygon\<rparr>],
                time_start = v_start,
                time_end = v_end,
                index = v_index,
                img_url = urlImg\<rparr>)))))))"

section \<open>ndviGen\<close>

text \<open>
  How the promise of \<^verbatim>\<open>ndviGen\<close> ends: resolved with \<^verbatim>\<open>ret\<close>, rejected with a
  string, or left unsettled because an exception escaped from \<^verbatim>\<open>runAnalysis\<close>
  inside the success callback (\<^verbatim>\<open>resolve(runAnalysis())\<close> has no handler around it).
\<close>

datatype outcome = Resolved result | Rejected string | Uncaught error

definition ndviGen ::
  "'k earthengine \<Rightarrow> 'k \<Rightarrow> Coord list \<Rightarrow> number \<Rightarrow> number \<Rightarrow> number
    \<Rightarrow> Coord list \<times> event list \<times> outcome" where
  "ndviGen ee devKey polygon w dateStart dateEnd =
     (case authenticateViaPrivateKey ee devKey of
        AuthFailure e \<Rightarrow>
          (polygon, [Ev_authenticateViaPrivateKey], Rejected (''Authentication error: '' @ e))
      | AuthSuccess \<Rightarrow>
          (case runAnalysis ee polygon w dateStart dateEnd of
             (polygon', t, Inr ret) \<Rightarrow>
               (polygon', Ev_authenticateViaPrivateKey # t, Resolved ret)
           | (polygon', t, Inl e) \<Rightarrow>
               (polygon', Ev_authenticateViaPrivateKey # t, Uncaught e)))"

section \<open>Derived forms used in the proofs\<close>

text \<open>\<^verbatim>\<open>isFinite(x)\<close>: neither \<^verbatim>\<open>NaN\<close> nor an infinity.\<close>

fun is_finite :: "number \<Rightarrow> bool" where
  "is_finite (Fin x) = True"
| "is_finite NZero = True"
| "is_finite PInf = False"
| "is_finite NInf = False"
| "is_finite NaN = False"

text \<open>
  Two numbers that are equal up to the sign of a zero, the sum of a list of numbers as
  the loop accumulates it (from \<^verbatim>\<open>+0\<close>, left to right), and two vertices whose
  coordinates are equal up to the sign of a zero.
\<close>

definition zsim :: "number \<Rightarrow> number \<Rightarrow> bool" where
  "zsim a b \<longleftrightarrow> a = b \<or> (is_zero a \<and> is_zero b)"

definition sum_js :: "number list \<Rightarrow> number" where
  "sum_js xs = foldl (+) (Fin 0) xs"

definition csim :: "Coord \<Rightarrow> Coord \<Rightarrow> bool" where
  "csim p q \<longleftrightarrow> zsim (lng p) (lng q) \<and> zsim (lat p) (lat q)"

text \<open>
  One round of the loop of \<^verbatim>\<open>get_polygon_centroid\<close> on the pair
  \<open>(p1, p2) = (pts[i], pts[j])\<close>, the closure step, the three sums over the ring and
  the last line of the function, each on its own. \<open>get_polygon_centroid_unfold\<close> below
  proves that they compose to the function as modelled from the source.
\<close>

fun accumulate ::
  "Coord \<Rightarrow> number \<times> number \<times> number \<Rightarrow> Coord \<times> Coord \<Rightarrow> number \<times> number \<times> number" where
  "accumulate first (area, lngSum, latSum) (p1, p2) =
     (let f = (lat p1 - lat first) * (lng p2 - lng first)
            - (lat p2 - lat first) * (lng p1 - lng first)
      in (area + f,
          lngSum + (lng p1 + lng p2 - Fin 2 * lng first) * f,
          latSum + (lat p1 + lat p2 - Fin 2 * lat first) * f))"

definition closure :: "Coord list \<Rightarrow> Coord list" where
  "closure pts =
     (if js_ne (lng (hd pts)) (lng (last pts)) \<or> js_ne (lat (hd pts)) (lat (last pts))
      then pts @ [hd pts] else pts)"

definition ring_sums :: "Coord \<Rightarrow> Coord list \<Rightarrow> number \<times> number \<times> number" where
  "ring_sums first r =
     foldl (accumulate first) (Fin 0, Fin 0, Fin 0) (zip r (last r # butlast r))"

fun centroid_from :: "Coord \<Rightarrow> number \<times> number \<times> number \<Rightarrow> Coord" where
  "centroid_from first (area, lngSum, latSum) =
     \<lparr>lng = lngSum div (area * Fin 3) + lng first,
      lat = latSum div (area * Fin 3) + lat first\<rparr>"

text \<open>
  The calls \<^verbatim>\<open>runAnalysis\<close> has made when it reaches the first
  \<^verbatim>\<open>image.getInfo()\<close>.
\<close>

definition run_trace :: "number list \<Rightarrow> number list list \<Rightarrow> number \<Rightarrow> number \<Rightarrow> event list" where
  "run_trace point ring dateStart dateEnd =
     [Ev_runAnalysis, Ev_initialize, Ev_Point point,
      Ev_ImageCollection ''LANDSAT/LC08/C01/T1_32DAY_NDVI'',
      Ev_filterDate dateStart dateEnd, Ev_sort ''CLOUD_COVER'', Ev_first, Ev_Image,
      Ev_visualize, Ev_Polygon ring, Ev_clip]"

section \<open>The formulas of the specification\<close>

text \<open>
  The specification's side, for a polygon of finite coordinates \<open>(lng, lat)\<close>: the
  closure rule, the cross term \<open>f\<close> of a pair (current, previous) and the two weighted
  terms, the consecutive pairs \<open>(ring[i], ring[(i - 1) mod n])\<close> of the closed ring, and
  the three sums, accumulated in the order of the ring in the arithmetic of the
  program.
\<close>

definition coord_of :: "real \<times> real \<Rightarrow> Coord" where
  "coord_of p = \<lparr>lng = Fin (fst p), lat = Fin (snd p)\<rparr>"

definition closed_ring :: "(real \<times> real) list \<Rightarrow> (real \<times> real) list" where
  "closed_ring ps = (if hd ps \<noteq> last ps then ps @ [hd ps] else ps)"

definition cross_term :: "Coord \<Rightarrow> Coord \<times> Coord \<Rightarrow> number" where
  "cross_term first pr =
     (lat (fst pr) - lat first) * (lng (snd pr) - lng first)
       - (lat (snd pr) - lat first) * (lng (fst pr) - lng first)"

definition lng_term :: "Coord \<Rightarrow> Coord \<times> Coord \<Rightarrow> number" where
  "lng_term first pr =
     (lng (fst pr) + lng (snd pr) - Fin 2 * lng first) * cross_term first pr"

definition lat_term :: "Coord \<Rightarrow> Coord \<times> Coord \<Rightarrow> number" where
  "lat_term first pr =
     (lat (fst pr) + lat (snd pr) - Fin 2 * lat first) * cross_term first pr"

definition ring_pairs :: "'a list \<Rightarrow> ('a \<times> 'a) list" where
  "ring_pairs r = map (\<lambda>i. (r ! i, r ! ((i + length r - 1) mod length r))) [0..<length r]"

definition shoelace_area :: "(real \<times> real) list \<Rightarrow> number" where
  "shoelace_area ps =
     sum_js (map (cross_term (coord_of (hd ps))) (ring_pairs (map coord_of (closed_ring ps))))"

definition shoelace_lngSum :: "(real \<times> real) list \<Rightarrow> number" where
  "shoelace_lngSum ps =
     sum_js (map (lng_term (coord_of (hd ps))) (ring_pairs (map coord_of (closed_ring ps))))"

definition shoelace_latSum :: "(real \<times> real) list \<Rightarrow> number" where
  "shoelace_latSum ps =
     sum_js (map (lat_term (coord_of (hd ps))) (ring_pairs (map coord_of (closed_ring ps))))"

text \<open>
  The extents of the bounding box: the differences of the coordinate-wise extrema over
  all vertices, as real numbers and as the program subtracts them.
\<close>

definition lng_extent :: "(real \<times> real) list \<Rightarrow> real" where
  "lng_extent ps = Max (set (map fst ps)) - Min (set (map fst ps))"

definition lat_extent :: "(real \<times> real) list \<Rightarrow> real" where
  "lat_extent ps = Max (set (map snd ps)) - Min (set (map snd ps))"

definition delta_lng :: "(real \<times> real) list \<Rightarrow> number" where
  "delta_lng ps = Fin (Max (set (map fst ps))) - Fin (Min (set (map fst ps)))"

definition delta_lat :: "(real \<times> real) list \<Rightarrow> number" where
  "delta_lat ps = Fin (Max (set (map snd ps))) - Fin (Min (set (map snd ps)))"

section \<open>Sample inputs and test doubles\<close>

definition square :: "(real \<times> real) list" where
  "square = [(0, 0), (0, 2), (2, 2), (2, 0)]"

definition triangle :: "(real \<times> real) list" where
  "triangle = [(0, 0), (4, 0), (0, 3)]"

definition rectangle :: "(real \<times> real) list" where
  "rectangle = [(0, 0), (10, 0), (10, 5), (0, 5)]"

definition meridian :: "(real \<times> real) list" where
  "meridian = [(7, 0), (7, 1), (7, 2)]"

text \<open>
  Two polygons whose coordinates are not integers: \<open>(0,0),(0.1,0.5),(0.5,2.5)\<close> and the
  rectangle \<open>(0,0),(0.8,0),(0.8,0.5),(0,0.5)\<close>. The literals \<^verbatim>\<open>0.1\<close> and \<^verbatim>\<open>0.8\<close> are
  the doubles \<open>3602879701896397 / 2 ^ 55\<close> and \<open>3602879701896397 / 2 ^ 52\<close>.
\<close>

definition sliver :: "(real \<times> real) list" where
  "sliver = [(0, 0), (3602879701896397 / 36028797018963968, 1 / 2), (1 / 2, 5 / 2)]"

definition plot :: "(real \<times> real) list" where
  "plot = [(0, 0), (3602879701896397 / 4503599627370496, 0),
           (3602879701896397 / 4503599627370496, 1 / 2), (0, 1 / 2)]"

text \<open>
  A thin triangle, \<open>(1,0),(1 + 2 ^ - 52,0),(1,1)\<close>: its second vertex has the double next
  after \<open>1\<close> as longitude.
\<close>

definition needle :: "(real \<times> real) list" where
  "needle = [(1, 0), (4503599627370497 / 4503599627370496, 0), (1, 1)]"

text \<open>
  Two stand-ins for the Earth Engine client: one that accepts the key \<open>''valid''\<close> and
  answers every call, one that has no image for the date range (\<^verbatim>\<open>getInfo()\<close> is
  \<^verbatim>\<open>null\<close>).
\<close>

definition demo_properties :: "string \<Rightarrow> jsval" where
  "demo_properties name =
     (if name = ''system:time_start'' then Num (Fin 1000)
      else if name = ''system:time_end'' then Num (Fin 2000)
      else if name = ''system:index'' then Str ''20200101''
      else Undefined)"

definition demo_service :: "string earthengine" where
  "demo_service =
     \<lparr>authenticateViaPrivateKey =
        (\<lambda>devKey. if devKey = ''valid'' then AuthSuccess else AuthFailure ''invalid_grant''),
      getInfo = (\<lambda>dateStart dateEnd k. Returns (Some demo_properties)),
      getThumbURL = (\<lambda>dims region. Returns ''https://earthengine.example/thumb'')\<rparr>"

definition empty_service :: "string earthengine" where
  "empty_service = demo_service\<lparr>getInfo := (\<lambda>dateStart dateEnd k. Returns None)\<rparr>"

section \<open>Powers of two and the binary exponent\<close>

lemma pow2_pos [simp]: "0 < pow2 k"
  by (simp add: pow2_def)

lemma pow2_add: "pow2 (j + k) = pow2 j * pow2 k"
  by (simp add: pow2_def power_int_add)

lemma pow2_Suc: "pow2 (k + 1) = 2 * pow2 k"
  by (simp add: pow2_def power_int_add_1')

lemma pow2_pred: "pow2 (k - 1) = pow2 k / 2"
  using pow2_Suc [of "k - 1"] by simp

lemma pow2_mono: "j \<le> k \<Longrightarrow> pow2 j \<le> pow2 k"
  by (simp add: pow2_def power_int_increasing)

lemma pow2_strict_mono: "j < k \<Longrightarrow> pow2 j < pow2 k"
  by (simp add: pow2_def power_int_strict_increasing)

lemma pow2_nonneg_int: "0 \<le> k \<Longrightarrow> pow2 k = of_int (2 ^ nat k)"
  by (simp add: pow2_def power_int_nonneg_exp)

lemma expo_up_spec:
  "1 \<le> a \<Longrightarrow> k \<le> 1024 \<Longrightarrow>
   k \<le> expo_up a k \<and> expo_up a k \<le> 1024 \<and> pow2 (expo_up a k) \<le> a * pow2 k \<and>
   (expo_up a k < 1024 \<longrightarrow> a * pow2 k < pow2 (expo_up a k + 1))"
proof (induction a k rule: expo_up.induct)
  case (1 a k)
  show ?case
  proof (cases "2 \<le> a \<and> k < 1024")
    case True
    then have e: "expo_up a k = expo_up (a / 2) (k + 1)"
      by (subst expo_up.simps) (simp only: if_True simp_thms)
    have "a / 2 * pow2 (k + 1) = a * pow2 k" by (simp add: pow2_Suc)
    with "1.IH" [OF True] True show ?thesis unfolding e by auto
  next
    case False
    then have e: "expo_up a k = k" by (subst expo_up.simps) (simp only: if_False)
    have "pow2 k \<le> a * pow2 k" using "1.prems"(1) by simp
    moreover have "k < 1024 \<Longrightarrow> a * pow2 k < pow2 (k + 1)"
      using False by (simp add: pow2_Suc)
    ultimately show ?thesis unfolding e using "1.prems"(2) by auto
  qed
qed

lemma expo_down_spec:
  "0 < a \<Longrightarrow> a < 2 \<Longrightarrow> - 1022 \<le> k \<Longrightarrow>
   - 1022 \<le> expo_down a k \<and> expo_down a k \<le> k \<and>
   a * pow2 k < pow2 (expo_down a k + 1) \<and>
   (- 1022 < expo_down a k \<longrightarrow> pow2 (expo_down a k) \<le> a * pow2 k)"
proof (induction a k rule: expo_down.induct)
  case (1 a k)
  show ?case
  proof (cases "a < 1 \<and> - 1022 < k")
    case True
    then have e: "expo_down a k = expo_down (a * 2) (k - 1)"
      by (subst expo_down.simps) (simp only: if_True simp_thms)
    have "a * 2 * pow2 (k - 1) = a * pow2 k" by (simp add: pow2_pred)
    with "1.IH" [OF True] True "1.prems" show ?thesis unfolding e by auto
  next
    case False
    then have e: "expo_down a k = k" by (subst expo_down.simps) (simp only: if_False)
    have "a * pow2 k < pow2 (k + 1)" using "1.prems"(2) by (simp add: pow2_Suc)
    moreover have "- 1022 < k \<Longrightarrow> pow2 k \<le> a * pow2 k"
      using False by simp
    ultimately show ?thesis unfolding e using "1.prems"(3) by auto
  qed
qed

lemma expo_spec:
  assumes "0 < a"
  shows "- 1022 \<le> expo a" "expo a \<le> 1024"
    "expo a < 1024 \<Longrightarrow> a < pow2 (expo a + 1)"
    "- 1022 < expo a \<Longrightarrow> pow2 (expo a) \<le> a"
proof -
  have u: "1 \<le> a \<Longrightarrow> 0 \<le> expo_up a 0 \<and> expo_up a 0 \<le> 1024 \<and> pow2 (expo_up a 0) \<le> a \<and>
   (expo_up a 0 < 1024 \<longrightarrow> a < pow2 (expo_up a 0 + 1))"
    using expo_up_spec [of a 0] by (simp add: pow2_def)
  have d: "\<not> 1 \<le> a \<Longrightarrow> - 1022 \<le> expo_down a 0 \<and> expo_down a 0 \<le> 0 \<and>
   a < pow2 (expo_down a 0 + 1) \<and>
   (- 1022 < expo_down a 0 \<longrightarrow> pow2 (expo_down a 0) \<le> a)"
    using expo_down_spec [of a 0] assms by (simp add: pow2_def)
  show "- 1022 \<le> expo a" "expo a \<le> 1024"
    "expo a < 1024 \<Longrightarrow> a < pow2 (expo a + 1)"
    "- 1022 < expo a \<Longrightarrow> pow2 (expo a) \<le> a"
    using u d by (auto simp: expo_def)
qed

lemma expo_unique:
  assumes "0 < a" "- 1022 \<le> k" "k \<le> 1024"
    and "k < 1024 \<Longrightarrow> a < pow2 (k + 1)"
    and "- 1022 < k \<Longrightarrow> pow2 k \<le> a"
  shows "expo a = k"
proof (rule ccontr)
  assume ne: "expo a \<noteq> k"
  note s = expo_spec [OF assms(1)]
  show False
  proof (cases "expo a < k")
    case True
    then have "pow2 k \<le> a" "a < pow2 (expo a + 1)" using assms(2,3,5) s by auto
    moreover have "pow2 (expo a + 1) \<le> pow2 k" using True by (intro pow2_mono) simp
    ultimately show False by linarith
  next
    case False
    then have lt: "k < expo a" using ne by simp
    then have "pow2 (expo a) \<le> a" "a < pow2 (k + 1)" using assms(2,3,4) s by auto
    moreover have "pow2 (k + 1) \<le> pow2 (expo a)" using lt by (intro pow2_mono) simp
    ultimately show False by linarith
  qed
qed

section \<open>Rounding to a double\<close>

lemma pow2_nonneg [simp]: "0 \<le> pow2 k"
  using pow2_pos [of k] by (rule less_imp_le)

lemma pow2_not_neg [simp]: "\<not> pow2 k < 0"
  using pow2_nonneg [of k] by (simp only: not_less)

lemma pow2_nonzero [simp]: "pow2 k \<noteq> 0"
  by (metis less_irrefl pow2_pos)

lemma rhe_of_int [simp]: "rhe (of_int n) = n"
  by (simp add: rhe_def)

lemma rhe_bounds: "\<lfloor>q\<rfloor> \<le> rhe q" "rhe q \<le> \<lfloor>q\<rfloor> + 1"
  by (simp_all add: rhe_def Let_def)

lemma rhe_ge: "of_int m \<le> q \<Longrightarrow> m \<le> rhe q"
proof -
  assume "of_int m \<le> q"
  then have "m \<le> \<lfloor>q\<rfloor>" by (simp add: le_floor_iff)
  with rhe_bounds(1) [of q] show ?thesis by linarith
qed

lemma rhe_le: "q \<le> of_int m \<Longrightarrow> rhe q \<le> m"
proof (cases "q = of_int m")
  case True
  then show ?thesis by simp
next
  case False
  assume "q \<le> of_int m"
  with False have "q < of_int m" by simp
  then have "\<lfloor>q\<rfloor> < m" by (simp add: floor_less_iff)
  then show ?thesis using rhe_bounds(2) [of q] by linarith
qed

lemma repr_0 [simp]: "repr 0"
  unfolding repr_def by (rule exI [of _ 0], rule exI [of _ 0]) simp

lemma repr_minus: "repr x \<Longrightarrow> repr (- x)"
  unfolding repr_def
  apply (elim exE conjE)
  subgoal for m e by (rule exI [of _ "- m"], rule exI [of _ e]) simp
  done

lemma repr_abs: "repr x \<Longrightarrow> repr \<bar>x\<bar>"
  by (cases "0 \<le> x") (simp_all add: repr_minus abs_if)

text \<open>Rounding a positive representable magnitude.\<close>

lemma round_pos_repr:
  assumes "a = of_int m * pow2 e" "0 < m" "m < 2 ^ 53" "- 1074 \<le> e" "e \<le> 971"
  shows "of_int (rhe (a / pow2 (expo a - 52))) * pow2 (expo a - 52) = a"
    and "a < pow2 1024" and "rhe (a / pow2 (expo a - 52)) \<noteq> 0"
proof -
  have pos: "0 < a" using assms(1,2) by simp
  note s = expo_spec [OF pos]
  have "a < 2 ^ 53 * pow2 e"
    using assms(1,3) by simp
  also have "\<dots> = pow2 (e + 53)"
    by (simp add: pow2_add) (simp add: pow2_def)
  finally have ub: "a < pow2 (e + 53)" .
  have le: "expo a - 52 \<le> e"
  proof (cases "- 1022 < expo a")
    case True
    then have "pow2 (expo a) \<le> a" by (rule s(4))
    with ub have "pow2 (expo a) < pow2 (e + 53)" by simp
    then have "expo a < e + 53"
      by (metis pow2_mono not_le)
    then show ?thesis by simp
  next
    case False
    then have "expo a = - 1022" using s(1) by simp
    then show ?thesis using assms(4) by simp
  qed
  define j where "j = e - (expo a - 52)"
  have j: "0 \<le> j" "e = (expo a - 52) + j" using le by (simp_all add: j_def)
  have pe: "pow2 e = pow2 (expo a - 52) * pow2 j"
    by (subst j(2)) (rule pow2_add)
  define d where "d = pow2 (expo a - 52)"
  have d: "0 < d" by (simp add: d_def)
  have "a = of_int m * pow2 j * d" using assms(1) pe by (simp add: d_def mult_ac)
  then have "a / d = of_int m * pow2 j" using d by simp
  then have "a / pow2 (expo a - 52) = of_int m * pow2 j" by (simp add: d_def)
  also have "\<dots> = of_int (m * 2 ^ nat j)"
    using j(1) by (simp add: pow2_nonneg_int)
  finally have q: "a / pow2 (expo a - 52) = of_int (m * 2 ^ nat j)" .
  have "of_int (rhe (a / pow2 (expo a - 52))) * pow2 (expo a - 52) =
        a / pow2 (expo a - 52) * pow2 (expo a - 52)"
    unfolding q rhe_of_int ..
  then show "of_int (rhe (a / pow2 (expo a - 52))) * pow2 (expo a - 52) = a" by simp
  have "pow2 (e + 53) \<le> pow2 1024" using assms(5) by (intro pow2_mono) simp
  with ub show "a < pow2 1024" by simp
  show "rhe (a / pow2 (expo a - 52)) \<noteq> 0"
    unfolding q rhe_of_int using assms(2) by simp
qed

lemma rnd_repr:
  assumes "repr x" "x \<noteq> 0"
  shows "rnd x = Fin x"
proof -
  from repr_abs [OF assms(1)] obtain m e where
    me: "\<bar>x\<bar> = of_int m * pow2 e" "\<bar>m\<bar> < 2 ^ 53" "- 1074 \<le> e" "e \<le> 971"
    unfolding repr_def by blast
  have "0 < \<bar>x\<bar>" using assms(2) by simp
  then have "0 < of_int m * pow2 e" using me(1) by simp
  then have mp: "0 < m" by (simp add: zero_less_mult_iff)
  then have m53: "m < 2 ^ 53" using me(2) by simp
  note r = round_pos_repr [OF me(1) mp m53 me(3,4)]
  show ?thesis
    using assms(2) r by (simp add: rnd_def Let_def not_le) (simp add: abs_if split: if_splits)
qed

lemma rnd_0 [simp]: "rnd 0 = Fin 0"
  by (simp add: rnd_def)

text \<open>What rounding returns is a double.\<close>

lemma round_pos_is_repr:
  assumes "0 < a" "of_int (rhe (a / pow2 (expo a - 52))) * pow2 (expo a - 52) < pow2 1024"
  shows "repr (of_int (rhe (a / pow2 (expo a - 52))) * pow2 (expo a - 52))"
proof -
  define k where "k = expo a"
  define n where "n = rhe (a / pow2 (k - 52))"
  note s = expo_spec [OF assms(1), folded k_def]
  have v: "of_int n * pow2 (k - 52) < pow2 1024" using assms(2) by (simp add: n_def k_def)
  have "0 \<le> a / pow2 (k - 52)"
    using assms(1) by (intro divide_nonneg_pos) simp_all
  then have n0: "0 \<le> n"
    unfolding n_def by (intro rhe_ge) simp
  have k1024: "k < 1024"
  proof (rule ccontr)
    assume "\<not> k < 1024"
    then have k: "k = 1024" using s(2) by simp
    then have "pow2 1024 \<le> a" using s(4) by simp
    then have "of_int (2 ^ 52) \<le> a / pow2 (k - 52)"
      unfolding k by (simp add: pos_le_divide_eq) (simp add: pow2_def)
    then have "2 ^ 52 \<le> n" unfolding n_def by (rule rhe_ge)
    then have r: "(2 ^ 52 :: real) \<le> of_int n"
      by (metis of_int_le_iff of_int_numeral of_int_power)
    have "2 ^ 52 * pow2 (k - 52) \<le> of_int n * pow2 (k - 52)"
      by (rule mult_right_mono [OF r pow2_nonneg])
    moreover have "2 ^ 52 * pow2 (k - 52) = pow2 1024"
      unfolding k by (simp add: pow2_def)
    ultimately show False using v by linarith
  qed
  have "a < pow2 (k + 1)" using s(3) k1024 by simp
  also have "\<dots> = 2 ^ 53 * pow2 (k - 52)"
    using pow2_add [of 53 "k - 52"] by (simp add: pow2_def add.commute)
  finally have "a / pow2 (k - 52) \<le> of_int (2 ^ 53)"
    by (simp add: pos_divide_le_eq)
  then have n53: "n \<le> 2 ^ 53" unfolding n_def by (rule rhe_le)
  show ?thesis
  proof (cases "n = 2 ^ 53")
    case False
    then have "\<bar>n\<bar> < 2 ^ 53" using n53 n0 by simp
    moreover have "- 1074 \<le> k - 52" "k - 52 \<le> 971" using s(1) k1024 by simp_all
    ultimately show ?thesis
      unfolding repr_def n_def [symmetric] k_def [symmetric] by blast
  next
    case True
    have eq: "of_int n * pow2 (k - 52) = of_int (2 ^ 52) * pow2 (k - 51)"
      unfolding True using pow2_Suc [of "k - 52"] by simp
    have "of_int n * pow2 (k - 52) = pow2 (k + 1)"
      unfolding True using pow2_add [of 53 "k - 52"] by (simp add: pow2_def add.commute)
    with v have "pow2 (k + 1) < pow2 1024" by simp
    then have "k + 1 < 1024" by (metis pow2_mono not_le)
    then have "- 1074 \<le> k - 51" "k - 51 \<le> 971" using s(1) by simp_all
    moreover have "\<bar>2 ^ 52 :: int\<bar> < 2 ^ 53" by simp
    ultimately show ?thesis
      unfolding repr_def n_def [symmetric] k_def [symmetric] eq by blast
  qed
qed

lemma dbl_rnd: "dbl (rnd r)"
proof (cases "r = 0")
  case True
  then show ?thesis by simp
next
  case False
  then have pos: "0 < \<bar>r\<bar>" by simp
  show ?thesis
    using round_pos_is_repr [OF pos] False
    by (auto simp: rnd_def Let_def not_le repr_minus)
qed

text \<open>Doubles lie on the grid of step \<open>2 ^ - 1074\<close>; a non-zero point of the grid does
  not round to zero.\<close>

lemma repr_grid: "repr x \<Longrightarrow> \<exists>M. x = of_int M * pow2 (- 1074)"
proof -
  assume "repr x"
  then obtain m e where me: "x = of_int m * pow2 e" "- 1074 \<le> e"
    unfolding repr_def by blast
  define j where "j = e + 1074"
  have j: "0 \<le> j" using me(2) by (simp add: j_def)
  have "pow2 e = pow2 j * pow2 (- 1074)"
    using pow2_add [of j "- 1074"] by (simp add: j_def)
  then have "x = of_int (m * 2 ^ nat j) * pow2 (- 1074)"
    unfolding me(1) using j by (simp add: pow2_nonneg_int)
  then show ?thesis by blast
qed

lemma round_pos_grid_nonzero:
  assumes "a = of_int M * pow2 (- 1074)" "0 < a"
  shows "rhe (a / pow2 (expo a - 52)) \<noteq> 0"
proof -
  note s = expo_spec [OF assms(2)]
  have M: "1 \<le> M" using assms by (simp add: zero_less_mult_iff)
  show ?thesis
  proof (cases "- 1022 < expo a")
    case True
    then have "pow2 (expo a) \<le> a" by (rule s(4))
    moreover have "pow2 (expo a) = 2 ^ 52 * pow2 (expo a - 52)"
      using pow2_add [of 52 "expo a - 52"] by (simp add: pow2_def)
    ultimately have "of_int (2 ^ 52) \<le> a / pow2 (expo a - 52)"
      by (simp add: pos_le_divide_eq)
    then have "2 ^ 52 \<le> rhe (a / pow2 (expo a - 52))" by (rule rhe_ge)
    then show ?thesis by simp
  next
    case False
    then have e: "expo a = - 1022" using s(1) by simp
    have "a / pow2 (expo a - 52) = a / pow2 (- 1074)" by (simp add: e)
    also have "\<dots> = of_int M" by (simp add: assms(1))
    finally have "a / pow2 (expo a - 52) = of_int M" .
    then show ?thesis using M by simp
  qed
qed

lemma rnd_sum_nonzero:
  assumes "repr x" "repr y" "x + y \<noteq> 0"
  shows "rnd (x + y) \<noteq> Fin 0" "rnd (x + y) \<noteq> NZero"
proof -
  from repr_grid [OF assms(1)] repr_grid [OF assms(2)]
  obtain M N where "x = of_int M * pow2 (- 1074)" "y = of_int N * pow2 (- 1074)" by blast
  then have g: "x + y = of_int (M + N) * pow2 (- 1074)" by (simp add: algebra_simps)
  have "\<exists>K. \<bar>x + y\<bar> = of_int K * pow2 (- 1074)"
  proof (cases "0 \<le> x + y")
    case True
    then show ?thesis using g by (metis abs_of_nonneg)
  next
    case False
    then have "\<bar>x + y\<bar> = of_int (- (M + N)) * pow2 (- 1074)"
      using g by (simp add: algebra_simps)
    then show ?thesis by blast
  qed
  then obtain K where K: "\<bar>x + y\<bar> = of_int K * pow2 (- 1074)" by blast
  have pos: "0 < \<bar>x + y\<bar>" using assms(3) by simp
  note nz = round_pos_grid_nonzero [OF K pos]
  show "rnd (x + y) \<noteq> Fin 0" "rnd (x + y) \<noteq> NZero"
    using nz assms(3) by (auto simp: rnd_def Let_def)
qed

section \<open>The four operations on special values\<close>

lemma NaN_absorbs [simp]:
  "NaN + x = NaN" "x + NaN = NaN" "NaN - x = NaN" "x - NaN = NaN"
  "NaN * x = NaN" "x * NaN = NaN" "NaN div x = NaN" "x div NaN = NaN"
  by (cases x; simp add: minus_number_def times_number_def divide_number_def)+

lemma dbl_zero_inf [simp]: "dbl (signed_zero s)" "dbl (signed_inf s)"
  by (simp_all add: signed_zero_def signed_inf_def)

lemma dbl_plus [simp]: "dbl (a + b)"
  by (cases a; cases b) (simp_all add: dbl_rnd)

lemma dbl_minus [simp]: "dbl (a - b)"
  by (simp add: minus_number_def)

lemma dbl_times [simp]: "dbl (a * b)"
  by (simp add: times_number_def dbl_rnd)

lemma dbl_divide [simp]: "dbl (a div b)"
  by (simp add: divide_number_def dbl_rnd)

section \<open>Signed zeros\<close>

text \<open>Equal up to the sign of a zero.\<close>

lemma zsim_refl [simp]: "zsim a a"
  by (simp add: zsim_def)

lemma zsim_sym: "zsim a b \<Longrightarrow> zsim b a"
  by (auto simp: zsim_def)

lemma zsim_trans: "zsim a b \<Longrightarrow> zsim b c \<Longrightarrow> zsim a c"
  by (auto simp: zsim_def)

lemma zsim_NaN [simp]: "zsim a NaN \<longleftrightarrow> a = NaN" "zsim NaN a \<longleftrightarrow> a = NaN"
  by (auto simp: zsim_def)

lemma is_zero_cases: "is_zero a \<longleftrightarrow> a = Fin 0 \<or> a = NZero"
  by (cases a) auto

lemma rnd_not_NaN [simp]: "rnd r \<noteq> NaN"
  by (simp add: rnd_def Let_def)

lemma zsim_plus_left: "zsim a a' \<Longrightarrow> zsim (a + b) (a' + b)"
proof (cases "a = a'")
  case False
  assume "zsim a a'"
  with False have "(a = Fin 0 \<and> a' = NZero) \<or> (a = NZero \<and> a' = Fin 0)"
    by (auto simp: zsim_def is_zero_cases)
  then show ?thesis by (cases b) (auto simp: zsim_def)
qed simp

lemma zsim_plus_right: "zsim b b' \<Longrightarrow> zsim (a + b) (a + b')"
proof (cases "b = b'")
  case False
  assume "zsim b b'"
  with False have "(b = Fin 0 \<and> b' = NZero) \<or> (b = NZero \<and> b' = Fin 0)"
    by (auto simp: zsim_def is_zero_cases)
  then show ?thesis by (cases a) (auto simp: zsim_def)
qed simp

lemma zsim_val: "zsim a b \<Longrightarrow> val a = val b"
  by (cases a; cases b) (auto simp: zsim_def)

lemma zsim_is_inf: "zsim a b \<Longrightarrow> is_inf a = is_inf b"
  by (cases a; cases b) (auto simp: zsim_def)

lemma zsim_is_zero: "zsim a b \<Longrightarrow> is_zero a = is_zero b"
  by (cases a; cases b) (auto simp: zsim_def)

lemma zsim_neg: "zsim a b \<Longrightarrow> \<not> is_zero a \<Longrightarrow> neg a = neg b"
  by (cases a; cases b) (auto simp: zsim_def)

lemma zsim_eq_NaN: "zsim a b \<Longrightarrow> (a = NaN) = (b = NaN)"
  by (auto simp: zsim_def)

lemma zsim_negate: "zsim a b \<Longrightarrow> zsim (negate a) (negate b)"
  by (cases a; cases b) (auto simp: zsim_def)

lemma zsim_plus: "zsim a a' \<Longrightarrow> zsim b b' \<Longrightarrow> zsim (a + b) (a' + b')"
  by (blast intro: zsim_trans zsim_plus_left zsim_plus_right)

lemma zsim_minus: "zsim a a' \<Longrightarrow> zsim b b' \<Longrightarrow> zsim (a - b) (a' - b')"
  by (simp add: minus_number_def zsim_plus zsim_negate)

lemma is_zero_signed [simp]: "is_zero (signed_zero s)" "\<not> is_zero (signed_inf s)"
  by (simp_all add: signed_zero_def signed_inf_def)

lemma zsim_times:
  assumes "zsim a a'" "zsim b b'"
  shows "zsim (a * b) (a' * b')"
proof -
  note va = zsim_val [OF assms(1)] and vb = zsim_val [OF assms(2)]
  note ia = zsim_is_inf [OF assms(1)] and ib = zsim_is_inf [OF assms(2)]
  note za = zsim_is_zero [OF assms(1)] and zb = zsim_is_zero [OF assms(2)]
  note na = zsim_eq_NaN [OF assms(1)] and nb = zsim_eq_NaN [OF assms(2)]
  show ?thesis
  proof (cases "is_zero a \<or> is_zero b")
    case True
    then have "is_zero a' \<or> is_zero b'" using za zb by simp
    with True show ?thesis
      unfolding times_number_def va vb ia ib na nb
      by (auto simp: zsim_def)
  next
    case False
    then have "neg a = neg a'" "neg b = neg b'"
      using zsim_neg assms by auto
    then show ?thesis
      unfolding times_number_def va vb ia ib za zb na nb by simp
  qed
qed

text \<open>Sums that start at \<open>+0\<close>.\<close>

lemma plus_not_NZero:
  assumes "dbl a" "dbl b" "a \<noteq> NZero"
  shows "a + b \<noteq> NZero"
proof (cases a)
  case (Fin x)
  then have rx: "repr x" using assms(1) by simp
  show ?thesis
  proof (cases b)
    case (Fin y)
    then have ry: "repr y" using assms(2) by simp
    show ?thesis
    proof (cases "x + y = 0")
      case True
      then show ?thesis using \<open>a = Fin x\<close> \<open>b = Fin y\<close> by simp
    next
      case False
      then show ?thesis
        using rnd_sum_nonzero(2) [OF rx ry] \<open>a = Fin x\<close> \<open>b = Fin y\<close> by simp
    qed
  next
    case NZero
    show ?thesis
    proof (cases "x = 0")
      case True
      then show ?thesis using \<open>a = Fin x\<close> NZero by simp
    next
      case False
      then show ?thesis using rnd_repr [OF rx] \<open>a = Fin x\<close> NZero by simp
    qed
  qed (simp_all add: \<open>a = Fin x\<close>)
qed (use assms(3) in \<open>cases b; simp\<close>)+

lemma plus_zero_right:
  assumes "dbl a" "a \<noteq> NZero" "is_zero z"
  shows "a + z = a"
proof (cases a)
  case (Fin x)
  then have rx: "repr x" using assms(1) by simp
  have r: "rnd x = Fin x"
    by (cases "x = 0") (simp_all add: rnd_repr [OF rx])
  show ?thesis using assms(3) r by (auto simp: is_zero_cases Fin)
qed (use assms in \<open>auto simp: is_zero_cases\<close>)

lemma plus_zsim_right:
  assumes "a \<noteq> NZero" "zsim i i'"
  shows "a + i = a + i'"
proof (cases "i = i'")
  case False
  then have "is_zero i" "is_zero i'" using assms(2) by (auto simp: zsim_def)
  then show ?thesis
    using assms(1) by (cases a) (auto simp: is_zero_cases)
qed simp

lemma foldl_plus_inv:
  assumes "dbl a" "a \<noteq> NZero" "\<forall>x \<in> set xs. dbl x"
  shows "dbl (foldl (+) a xs) \<and> foldl (+) a xs \<noteq> NZero"
  using assms
proof (induction xs arbitrary: a)
  case Nil
  then show ?case by simp
next
  case (Cons x xs)
  have "dbl (a + x)" by simp
  moreover have "a + x \<noteq> NZero"
    using Cons.prems by (intro plus_not_NZero) simp_all
  ultimately show ?case using Cons.IH [of "a + x"] Cons.prems(3) by simp
qed

lemma foldl_plus_zsim:
  assumes "a \<noteq> NZero" "dbl a" "list_all2 zsim xs ys" "\<forall>x \<in> set xs. dbl x"
  shows "foldl (+) a xs = foldl (+) a ys"
  using assms(3,1,2,4)
proof (induction xs ys arbitrary: a rule: list_all2_induct)
  case Nil
  then show ?case by simp
next
  case (Cons x xs y ys)
  have e: "a + x = a + y" using Cons.prems(1) Cons.hyps(1) by (rule plus_zsim_right)
  have "a + x \<noteq> NZero" using Cons.prems by (intro plus_not_NZero) simp_all
  moreover have "dbl (a + x)" by simp
  ultimately have "foldl (+) (a + x) xs = foldl (+) (a + x) ys"
    using Cons.IH Cons.prems(3) by simp
  then show ?case by (simp add: e)
qed

lemma foldl_plus_NaN [simp]: "foldl (+) NaN xs = NaN"
  by (induction xs) simp_all

lemma foldl_plus_has_NaN: "NaN \<in> set xs \<Longrightarrow> foldl (+) a xs = NaN"
  by (induction xs arbitrary: a) auto

lemma sum_js_zsim:
  "list_all2 zsim xs ys \<Longrightarrow> \<forall>x \<in> set xs. dbl x \<Longrightarrow> sum_js xs = sum_js ys"
  unfolding sum_js_def by (rule foldl_plus_zsim) simp_all

lemma sum_js_snoc_zero:
  assumes "\<forall>x \<in> set xs. dbl x" "is_zero z"
  shows "sum_js (xs @ [z]) = sum_js xs"
proof -
  have "dbl (foldl (+) (Fin 0) xs) \<and> foldl (+) (Fin 0) xs \<noteq> NZero"
    using assms(1) by (intro foldl_plus_inv) simp_all
  then show ?thesis
    using assms(2) by (simp add: sum_js_def plus_zero_right)
qed

lemma sum_js_snoc_NaN:
  assumes "NaN \<in> set xs"
  shows "sum_js (xs @ [z]) = sum_js xs"
  using assms by (simp add: sum_js_def foldl_plus_has_NaN)

section \<open>Evaluating the operations\<close>

lemma repr_of_int: "\<bar>m\<bar> < 2 ^ 53 \<Longrightarrow> repr (of_int m)"
  unfolding repr_def by (rule exI [of _ m], rule exI [of _ 0]) (simp add: pow2_def)

lemma rnd_of_int: "\<bar>m\<bar> < 2 ^ 53 \<Longrightarrow> rnd (of_int m) = Fin (of_int m)"
  by (cases "m = 0") (simp_all add: rnd_repr repr_of_int)

lemma rnd_numeral [simp]:
  "(numeral n :: int) < 2 ^ 53 \<Longrightarrow> rnd (numeral n) = Fin (numeral n)"
  "(numeral n :: int) < 2 ^ 53 \<Longrightarrow> rnd (- numeral n) = Fin (- numeral n)"
  "rnd 1 = Fin 1" "rnd (- 1) = Fin (- 1)"
  using rnd_of_int [of "numeral n"] rnd_of_int [of "- numeral n"] rnd_of_int [of 1]
    rnd_of_int [of "- 1"]
  by simp_all

lemma times_Fin:
  "Fin x * Fin y = (if x * y = 0 then signed_zero ((x < 0) \<noteq> (y < 0)) else rnd (x * y))"
  by (simp add: times_number_def)

lemma divide_Fin:
  "Fin x div Fin y =
     (if y = 0 then (if x = 0 then NaN else signed_inf ((x < 0) \<noteq> (y < 0)))
      else if x = 0 then signed_zero ((x < 0) \<noteq> (y < 0)) else rnd (x / y))"
  by (simp add: divide_number_def)

lemma minus_Fin:
  "Fin x - Fin y = (if y = 0 then rnd x else rnd (x - y))"
  by (simp add: minus_number_def)

lemmas js_eval = times_Fin divide_Fin minus_Fin signed_zero_def signed_inf_def

lemma rnd_dyadic:
  assumes "\<bar>m\<bar> < 2 ^ 53" "- 1074 \<le> e" "e \<le> 971"
  shows "rnd (of_int m * pow2 e) = (if m = 0 then Fin 0 else Fin (of_int m * pow2 e))"
proof (cases "m = 0")
  case True
  then show ?thesis by simp
next
  case False
  have "repr (of_int m * pow2 e)" unfolding repr_def using assms by blast
  then show ?thesis using False by (simp add: rnd_repr)
qed

lemma rnd_normal:
  assumes "pow2 k \<le> r" "r < pow2 (k + 1)" "- 1022 < k" "k < 1023"
    and "rhe (r / pow2 (k - 52)) = n"
    and "of_int n * pow2 (k - 52) < pow2 1024"
  shows "rnd r = Fin (of_int n * pow2 (k - 52))"
proof -
  have pos: "0 < r" using assms(1) pow2_pos [of k] by linarith
  have e: "expo r = k"
    using pos assms(1-4) by (intro expo_unique) simp_all
  have "of_int (2 ^ 52) * pow2 (k - 52) = pow2 k"
    using pow2_add [of 52 "k - 52"] by (simp add: pow2_nonneg_int)
  then have "of_int (2 ^ 52) \<le> r / pow2 (k - 52)"
    using assms(1) by (simp add: pos_le_divide_eq)
  then have "2 ^ 52 \<le> rhe (r / pow2 (k - 52))" by (rule rhe_ge)
  then have n: "0 < n" using assms(5) by simp
  show ?thesis
    using pos n assms(5,6) by (simp add: rnd_def Let_def e)
qed

lemma rnd_four_thirds: "rnd (4 / 3) = Fin (6004799503160661 / 4503599627370496)"
proof -
  have p: "pow2 (- 52) = 1 / 4503599627370496" "pow2 0 = 1" "pow2 1 = 2"
    by (simp_all add: pow2_def power_int_minus field_simps)
  have "rhe ((4 / 3) / pow2 (0 - 52)) = 6004799503160661"
    by (simp add: p rhe_def Let_def)
  from rnd_normal [OF _ _ _ _ this, unfolded p]
  show ?thesis by (simp add: p pow2_def)
qed

lemma rnd_four_thirds_again [simp]:
  "rnd (6004799503160661 / 4503599627370496) = Fin (6004799503160661 / 4503599627370496)"
  using rnd_dyadic [of 6004799503160661 "- 52"] by (simp add: pow2_def power_int_minus)

lemma rnd_five_halves: "rnd (5 / 2) = Fin (5 / 2)"
  using rnd_dyadic [of 5 "- 1"] by (simp add: pow2_def power_int_minus)

section \<open>The loop as a fold over the consecutive pairs\<close>

lemma centroid_loop_step:
  "i < nPts \<Longrightarrow>
   centroid_loop pts first nPts i j acc =
   centroid_loop pts first nPts (Suc i) i (accumulate first acc (pts ! i, pts ! j))"
  by (cases acc) (simp add: centroid_loop.simps [of pts first nPts i j] Let_def)

lemma centroid_loop_done:
  "\<not> i < nPts \<Longrightarrow> centroid_loop pts first nPts i j acc = acc"
  by (cases acc) (simp add: centroid_loop.simps [of pts first nPts i j])

lemma centroid_loop_from:
  "i \<le> length pts \<Longrightarrow>
   centroid_loop pts first (length pts) (Suc i) i acc =
   foldl (accumulate first) acc (zip (drop (Suc i) pts) (drop i pts))"
proof (induction "length pts - i" arbitrary: i acc)
  case 0
  then have "\<not> Suc i < length pts" by simp
  then show ?case using 0 by (simp add: centroid_loop_done)
next
  case (Suc k)
  show ?case
  proof (cases "Suc i < length pts")
    case True
    then have d1: "drop (Suc i) pts = pts ! Suc i # drop (Suc (Suc i)) pts"
      by (simp add: Cons_nth_drop_Suc)
    from True have d2: "drop i pts = pts ! i # drop (Suc i) pts"
      by (simp add: Cons_nth_drop_Suc)
    have k: "k = length pts - Suc i" using Suc.hyps(2) by simp
    have le: "Suc i \<le> length pts" using True by simp
    have "centroid_loop pts first (length pts) (Suc i) i acc =
          centroid_loop pts first (length pts) (Suc (Suc i)) (Suc i)
            (accumulate first acc (pts ! Suc i, pts ! i))"
      using True by (rule centroid_loop_step)
    also have "\<dots> = foldl (accumulate first) (accumulate first acc (pts ! Suc i, pts ! i))
                       (zip (drop (Suc (Suc i)) pts) (drop (Suc i) pts))"
      by (rule Suc.hyps(1) [OF k le])
    also have "\<dots> = foldl (accumulate first) acc
                       (zip (pts ! Suc i # drop (Suc (Suc i)) pts) (pts ! i # drop (Suc i) pts))"
      by simp
    finally show ?thesis using d1 d2 by simp
  next
    case False
    then show ?thesis using Suc.prems by (simp add: centroid_loop_done)
  qed
qed

lemma zip_tl_butlast: "zip ps (p # ps) = zip ps (butlast (p # ps))"
  by (induction ps arbitrary: p) auto

lemma centroid_loop_pairs:
  assumes "pts \<noteq> []"
  shows "centroid_loop pts first (length pts) 0 (length pts - 1) acc =
         foldl (accumulate first) acc (zip pts (last pts # butlast pts))"
proof -
  obtain p ps where pts: "pts = p # ps" using assms by (cases pts) auto
  have l: "pts ! (length pts - 1) = last pts" using assms by (simp add: last_conv_nth)
  have "centroid_loop pts first (length pts) 0 (length pts - 1) acc =
        centroid_loop pts first (length pts) (Suc 0) 0 (accumulate first acc (pts ! 0, last pts))"
    using assms l by (simp add: centroid_loop_step)
  also have "\<dots> = foldl (accumulate first) (accumulate first acc (pts ! 0, last pts))
                      (zip (drop (Suc 0) pts) (drop 0 pts))"
    by (rule centroid_loop_from) simp
  also have "\<dots> = foldl (accumulate first) acc ((p, last pts) # zip ps (butlast (p # ps)))"
    using zip_tl_butlast [of ps p] by (simp add: pts)
  also have "\<dots> = foldl (accumulate first) acc (zip pts (last pts # butlast pts))"
    by (simp add: pts)
  finally show ?thesis .
qed

lemma closure_nonempty: "pts \<noteq> [] \<Longrightarrow> closure pts \<noteq> []"
  by (simp add: closure_def)

lemma get_polygon_centroid_unfold:
  assumes "pts \<noteq> []"
  shows "get_polygon_centroid pts =
         Inr (closure pts, centroid_from (hd pts) (ring_sums (hd pts) (closure pts)))"
proof -
  obtain p ps where pts: "pts = p # ps" using assms by (cases pts) auto
  have l: "(p # ps) ! (length (p # ps) - 1) = last (p # ps)"
    by (metis last_conv_nth list.distinct(1))
  have c: "(if js_ne (lng p) (lng (last (p # ps))) \<or> js_ne (lat p) (lat (last (p # ps)))
            then (p # ps) @ [p] else p # ps) = closure (p # ps)"
    by (simp only: closure_def list.sel)
  obtain a b c' where s: "ring_sums p (closure (p # ps)) = (a, b, c')"
    by (cases "ring_sums p (closure (p # ps))")
  have ne: "closure (p # ps) \<noteq> []" by (rule closure_nonempty) simp
  have loop: "centroid_loop (closure (p # ps)) p (length (closure (p # ps))) 0
                (length (closure (p # ps)) - 1) (Fin 0, Fin 0, Fin 0) = (a, b, c')"
    using centroid_loop_pairs [OF ne] s by (simp add: ring_sums_def)
  have "get_polygon_centroid (p # ps) =
        Inr (closure (p # ps), centroid_from p (ring_sums p (closure (p # ps))))"
    unfolding get_polygon_centroid_def list.case l c Let_def loop s prod.case
    by simp
  then show ?thesis by (simp add: pts)
qed

section \<open>The three sums of the loop\<close>

lemma ring_pairs_zip:
  assumes "r \<noteq> []"
  shows "ring_pairs r = zip r (last r # butlast r)"
proof (rule nth_equalityI)
  show "length (ring_pairs r) = length (zip r (last r # butlast r))"
    using assms by (simp add: ring_pairs_def)
next
  fix i assume "i < length (ring_pairs r)"
  then have i: "i < length r" by (simp add: ring_pairs_def)
  show "ring_pairs r ! i = zip r (last r # butlast r) ! i"
  proof (cases i)
    case 0
    then show ?thesis using i assms by (simp add: ring_pairs_def last_conv_nth)
  next
    case (Suc k)
    then have "(i + length r - 1) mod length r = k" using i by simp
    then show ?thesis using i Suc by (simp add: ring_pairs_def nth_butlast)
  qed
qed

lemma accumulate_terms:
  "accumulate first (a, l, t) pr =
     (a + cross_term first pr, l + lng_term first pr, t + lat_term first pr)"
  by (cases pr) (simp add: cross_term_def lng_term_def lat_term_def Let_def)

lemma foldl_accumulate:
  "foldl (accumulate first) (a, l, t) prs =
     (foldl (+) a (map (cross_term first) prs),
      foldl (+) l (map (lng_term first) prs),
      foldl (+) t (map (lat_term first) prs))"
  by (induction prs arbitrary: a l t) (simp_all add: accumulate_terms)

lemma ring_sums_terms:
  "ring_sums first r =
     (sum_js (map (cross_term first) (zip r (last r # butlast r))),
      sum_js (map (lng_term first) (zip r (last r # butlast r))),
      sum_js (map (lat_term first) (zip r (last r # butlast r))))"
  by (simp add: ring_sums_def foldl_accumulate sum_js_def)

lemma closure_coord_of:
  assumes "ps \<noteq> []"
  shows "closure (map coord_of ps) = map coord_of (closed_ring ps)"
  using assms
  by (auto simp: closure_def closed_ring_def js_ne_def coord_of_def prod_eq_iff hd_map last_map)

lemma ring_sums_finite:
  assumes "ps \<noteq> []"
  shows "ring_sums (hd (map coord_of ps)) (closure (map coord_of ps)) =
         (shoelace_area ps, shoelace_lngSum ps, shoelace_latSum ps)"
proof -
  have r: "map coord_of (closed_ring ps) \<noteq> []" using assms by (simp add: closed_ring_def)
  show ?thesis
    unfolding closure_coord_of [OF assms] ring_sums_terms
      shoelace_area_def shoelace_lngSum_def shoelace_latSum_def ring_pairs_zip [OF r]
    using assms by (simp add: hd_map)
qed

lemma get_polygon_centroid_finite:
  assumes "ps \<noteq> []"
  shows "get_polygon_centroid (map coord_of ps) =
     Inr (map coord_of (closed_ring ps),
          \<lparr>lng = shoelace_lngSum ps div (shoelace_area ps * Fin 3) + Fin (fst (hd ps)),
           lat = shoelace_latSum ps div (shoelace_area ps * Fin 3) + Fin (snd (hd ps))\<rparr>)"
proof -
  have ne: "map coord_of ps \<noteq> []" using assms by simp
  have hd: "hd (map coord_of ps) = coord_of (hd ps)" using assms by (simp add: hd_map)
  show ?thesis
    unfolding get_polygon_centroid_unfold [OF ne] ring_sums_finite [OF assms]
    by (simp add: closure_coord_of [OF assms] hd coord_of_def)
qed

lemmas sample_eval =
  shoelace_area_def shoelace_lngSum_def shoelace_latSum_def closed_ring_def ring_pairs_def
  cross_term_def lng_term_def lat_term_def coord_of_def sum_js_def js_eval
  upt_rec [of 0] upt_rec [of 1] upt_rec [of 2] upt_rec [of 3] upt_rec [of 4] upt_rec [of 5]


lemma triangle_sums:
  "shoelace_area triangle = Fin 12" "shoelace_lngSum triangle = Fin 48"
  "shoelace_latSum triangle = Fin 36"
  by (simp_all add: triangle_def sample_eval)

lemma rectangle_sums:
  "shoelace_area rectangle = Fin 100" "shoelace_lngSum rectangle = Fin 1500"
  "shoelace_latSum rectangle = Fin 750"
  by (simp_all add: rectangle_def sample_eval)

lemma meridian_sums:
  "shoelace_area meridian = Fin 0" "shoelace_lngSum meridian = Fin 0"
  "shoelace_latSum meridian = Fin 0"
  by (simp_all add: meridian_def sample_eval)

section \<open>Extrema and dimensions\<close>

lemma max2_Fin: "max2 (Fin a) (Fin b) = Fin (max a b)"
  by (simp add: max2_def max_def)

lemma min2_Fin: "min2 (Fin a) (Fin b) = Fin (min a b)"
  by (simp add: min2_def min_def)

lemma foldl_max2_Fin: "foldl max2 (Fin m) (map Fin xs) = Fin (fold max xs m)"
  by (induction xs arbitrary: m) (simp_all add: max2_Fin max.commute)

lemma foldl_min2_Fin: "foldl min2 (Fin m) (map Fin xs) = Fin (fold min xs m)"
  by (induction xs arbitrary: m) (simp_all add: min2_Fin min.commute)

lemma Math_max_Fin:
  assumes "xs \<noteq> []"
  shows "Math_max (map Fin xs) = Fin (Max (set xs))"
proof -
  obtain y ys where xs: "xs = y # ys" using assms by (cases xs) auto
  have "max2 NInf (Fin y) = Fin y" by (simp add: max2_def)
  then have "Math_max (map Fin xs) = Fin (fold max ys y)"
    by (simp add: Math_max_def xs foldl_max2_Fin)
  also have "fold max ys y = Max (set (y # ys))"
    by (rule Max.set_eq_fold [symmetric])
  finally show ?thesis by (simp only: xs)
qed

lemma Math_min_Fin:
  assumes "xs \<noteq> []"
  shows "Math_min (map Fin xs) = Fin (Min (set xs))"
proof -
  obtain y ys where xs: "xs = y # ys" using assms by (cases xs) auto
  have "min2 PInf (Fin y) = Fin y" by (simp add: min2_def)
  then have "Math_min (map Fin xs) = Fin (fold min ys y)"
    by (simp add: Math_min_def xs foldl_min2_Fin)
  also have "fold min ys y = Min (set (y # ys))"
    by (rule Min.set_eq_fold [symmetric])
  finally show ?thesis by (simp only: xs)
qed

lemma coordLng_finite: "coordLng (map coord_of ps) = map Fin (map fst ps)"
  by (simp add: coordLng_def coord_of_def)

lemma coordLat_finite: "coordLat (map coord_of ps) = map Fin (map snd ps)"
  by (simp add: coordLat_def coord_of_def)

lemma extrema_finite:
  assumes "ps \<noteq> []"
  shows "maxLng (map coord_of ps) = Fin (Max (set (map fst ps)))"
    and "minLng (map coord_of ps) = Fin (Min (set (map fst ps)))"
    and "maxLat (map coord_of ps) = Fin (Max (set (map snd ps)))"
    and "minLat (map coord_of ps) = Fin (Min (set (map snd ps)))"
  using assms
  by (simp_all only: maxLng_def minLng_def maxLat_def minLat_def coordLng_finite coordLat_finite
      Math_max_Fin Math_min_Fin map_is_Nil_conv not_False_eq_True)

lemma deltas_finite:
  assumes "ps \<noteq> []"
  shows "deltaLng (map coord_of ps) = delta_lng ps"
    and "deltaLat (map coord_of ps) = delta_lat ps"
  by (simp_all add: deltaLng_def deltaLat_def extrema_finite [OF assms] delta_lng_def delta_lat_def)

lemma dimensionLat_finite:
  assumes "ps \<noteq> []"
  shows "dimensionLat (map coord_of ps) w = Math_round ((w * delta_lat ps) div delta_lng ps)"
  by (simp add: dimensionLat_def deltas_finite [OF assms])

lemma Math_round_val: "val (Math_round (Fin x)) = of_int (round x)"
proof (cases "x < 0 \<and> - (1 / 2) \<le> x")
  case True
  then have "\<lfloor>x + 1 / 2\<rfloor> = 0" by linarith
  then show ?thesis using True by (simp add: round_def)
next
  case False
  then show ?thesis by (auto simp: round_def)
qed

lemma repr_Math_round:
  assumes "repr x"
  shows "dbl (Math_round (Fin x))"
proof -
  from assms obtain m e where me: "x = of_int m * pow2 e" "\<bar>m\<bar> < 2 ^ 53" "- 1074 \<le> e"
    unfolding repr_def by blast
  have "repr (of_int \<lfloor>x + 1 / 2\<rfloor>)"
  proof (cases "0 \<le> e")
    case True
    then have "x = of_int (m * 2 ^ nat e)" by (simp add: me(1) pow2_nonneg_int)
    moreover have "\<lfloor>(of_int (m * 2 ^ nat e) :: real) + 1 / 2\<rfloor> = m * 2 ^ nat e"
      by linarith
    ultimately have "of_int \<lfloor>x + 1 / 2\<rfloor> = x"
      by simp
    then show ?thesis using assms by simp
  next
    case False
    then have "pow2 e \<le> pow2 (- 1)" by (intro pow2_mono) simp
    then have b: "pow2 e \<le> 1 / 2" by (simp add: pow2_def power_int_minus)
    have "of_int \<bar>m\<bar> \<le> (of_int (2 ^ 53) :: real)"
      using me(2) by (simp only: of_int_le_iff)
    then have a: "of_int \<bar>m\<bar> \<le> (2 ^ 53 :: real)" by simp
    have "of_int \<bar>m\<bar> * pow2 e \<le> (2 ^ 53 :: real) * (1 / 2)"
      by (rule mult_mono [OF a b]) simp_all
    moreover have "\<bar>x\<bar> = of_int \<bar>m\<bar> * pow2 e" by (simp add: me(1) abs_mult)
    ultimately have "\<bar>x\<bar> \<le> 2 ^ 53 * (1 / 2)" by simp
    then have "\<bar>x\<bar> \<le> 4503599627370496" by simp
    then have "- 4503599627370496 \<le> \<lfloor>x + 1 / 2\<rfloor>" "\<lfloor>x + 1 / 2\<rfloor> \<le> 4503599627370496"
      by linarith+
    moreover have "(2 :: int) ^ 53 = 9007199254740992" by simp
    ultimately have "\<bar>\<lfloor>x + 1 / 2\<rfloor>\<bar> < 2 ^ 53" by linarith
    then show ?thesis by (rule repr_of_int)
  qed
  then show ?thesis by simp
qed

lemma is_zero_rnd_sum:
  assumes "repr x" "repr y" "x \<noteq> y"
  shows "\<not> is_zero (Fin x - Fin y)"
proof (cases "y = 0")
  case True
  then show ?thesis using assms by (simp add: minus_Fin rnd_repr)
next
  case False
  have "x + - y \<noteq> 0" using assms(3) by simp
  from rnd_sum_nonzero [OF assms(1) repr_minus [OF assms(2)] this]
  show ?thesis using False by (simp add: minus_Fin is_zero_cases)
qed

lemma delta_lng_nonzero:
  assumes "ps \<noteq> []" "\<forall>p \<in> set ps. repr (fst p)" "lng_extent ps \<noteq> 0"
  shows "\<not> is_zero (delta_lng ps)"
proof -
  have s: "finite (set (map fst ps))" "set (map fst ps) \<noteq> {}" using assms(1) by simp_all
  have "Max (set (map fst ps)) \<in> set (map fst ps)" "Min (set (map fst ps)) \<in> set (map fst ps)"
    using Max_in [OF s] Min_in [OF s] by blast+
  then have "repr (Max (set (map fst ps)))" "repr (Min (set (map fst ps)))"
    using assms(2) by auto
  moreover have "Max (set (map fst ps)) \<noteq> Min (set (map fst ps))"
    using assms(3) by (simp add: lng_extent_def)
  ultimately show ?thesis
    unfolding delta_lng_def by (rule is_zero_rnd_sum)
qed

section \<open>What a run returns\<close>

lemma runAnalysis_returns:
  assumes "runAnalysis ee polygon w dateStart dateEnd = (p', t, Inr r)"
  shows "width r = dimensionLng w"
    and "height r = dimensionLat polygon w"
    and "bounds r = [\<lparr>lng = maxLng polygon, lat = maxLat polygon\<rparr>,
                     \<lparr>lng = minLng polygon, lat = minLat polygon\<rparr>]"
    and "\<exists>i0 i1 i2. getInfo ee dateStart dateEnd 0 = Returns (Some i0) \<and>
                     getInfo ee dateStart dateEnd 1 = Returns (Some i1) \<and>
                     getInfo ee dateStart dateEnd 2 = Returns (Some i2) \<and>
                     time_start r = i0 ''system:time_start'' \<and>
                     time_end r = i1 ''system:time_end'' \<and>
                     index r = i2 ''system:index''"
  using assms
  by (auto simp: runAnalysis_def Let_def image_property_def
      split: sum.splits prod.splits ext.splits option.splits)

lemma ndviGen_resolved:
  "ndviGen ee devKey polygon w dateStart dateEnd = (p', t, Resolved r) \<longleftrightarrow>
   (authenticateViaPrivateKey ee devKey = AuthSuccess \<and>
    (\<exists>t'. t = Ev_authenticateViaPrivateKey # t' \<and>
          runAnalysis ee polygon w dateStart dateEnd = (p', t', Inr r)))"
  by (auto simp: ndviGen_def split: auth_result.splits prod.splits sum.splits)

section \<open>Special values in the loop\<close>

lemma cross_term_NaN:
  assumes "lng first = NaN \<or> lat first = NaN"
  shows "cross_term first pr = NaN"
  using assms by (auto simp: cross_term_def)

lemma ring_sums_NaN:
  assumes "r \<noteq> []" "lng first = NaN \<or> lat first = NaN"
  shows "ring_sums first r = (NaN, NaN, NaN)"
proof -
  obtain p ps where r: "r = p # ps" using assms(1) by (cases r) auto
  have "zip r (last r # butlast r) \<noteq> []" by (simp add: r)
  then obtain pr where pr: "pr \<in> set (zip r (last r # butlast r))"
    by (cases "zip r (last r # butlast r)") auto
  have t: "cross_term first pr = NaN" "lng_term first pr = NaN" "lat_term first pr = NaN"
    by (simp_all add: lng_term_def lat_term_def cross_term_NaN [OF assms(2)])
  have "NaN \<in> set (map (cross_term first) (zip r (last r # butlast r)))"
    "NaN \<in> set (map (lng_term first) (zip r (last r # butlast r)))"
    "NaN \<in> set (map (lat_term first) (zip r (last r # butlast r)))"
    using pr t by force+
  then show ?thesis
    unfolding ring_sums_terms sum_js_def by (simp only: foldl_plus_has_NaN)
qed

section \<open>The second call of \<^verbatim>\<open>get_polygon_centroid\<close>\<close>

lemma hd_closure: "pts \<noteq> [] \<Longrightarrow> hd (closure pts) = hd pts"
  by (simp add: closure_def)

lemma closure_idem:
  assumes "pts \<noteq> []" "lng (hd pts) \<noteq> NaN" "lat (hd pts) \<noteq> NaN"
  shows "closure (closure pts) = closure pts"
  using assms by (simp add: closure_def js_ne_def)

lemma closure_NaN:
  assumes "lng (hd pts) = NaN \<or> lat (hd pts) = NaN"
  shows "closure pts = pts @ [hd pts]"
  using assms by (auto simp: closure_def js_ne_def)

lemma get_polygon_centroid_again:
  assumes "pts \<noteq> []"
  shows "get_polygon_centroid (closure pts) =
         Inr (closure (closure pts), centroid_from (hd pts) (ring_sums (hd pts) (closure pts)))"
proof (cases "lng (hd pts) = NaN \<or> lat (hd pts) = NaN")
  case True
  have ne: "closure pts \<noteq> []" "closure (closure pts) \<noteq> []"
    using assms by (simp_all add: closure_nonempty)
  show ?thesis
    unfolding get_polygon_centroid_unfold [OF ne(1)] hd_closure [OF assms]
      ring_sums_NaN [OF ne(1) True] ring_sums_NaN [OF ne(2) True] ..
next
  case False
  then have "closure (closure pts) = closure pts"
    using assms by (simp add: closure_idem)
  then show ?thesis
    using assms by (simp add: get_polygon_centroid_unfold closure_nonempty hd_closure)
qed

section \<open>\<^verbatim>\<open>runAnalysis\<close> and \<^verbatim>\<open>ndviGen\<close> step by step\<close>

lemma runAnalysis_unfold:
  assumes "polygon \<noteq> []"
  shows "runAnalysis ee polygon w dateStart dateEnd =
     (let c = centroid_from (hd polygon) (ring_sums (hd polygon) (closure polygon));
          polygon2 = closure (closure polygon);
          t1 = run_trace [lng c, lat c] (coord polygon) dateStart dateEnd;
          dims = [dimensionLng w, dimensionLat polygon w]
      in case image_property ee dateStart dateEnd 0 ''system:time_start'' of
           Inl e \<Rightarrow> (polygon2, t1 @ [Ev_getInfo], Inl e)
         | Inr v_start \<Rightarrow>
        (case image_property ee dateStart dateEnd 1 ''system:time_end'' of
           Inl e \<Rightarrow> (polygon2, t1 @ [Ev_getInfo, Ev_getInfo], Inl e)
         | Inr v_end \<Rightarrow>
        (case image_property ee dateStart dateEnd 2 ''system:index'' of
           Inl e \<Rightarrow> (polygon2, t1 @ [Ev_getInfo, Ev_getInfo, Ev_getInfo], Inl e)
         | Inr v_index \<Rightarrow>
        (case getThumbURL ee dims (coord polygon) of
           Throws m \<Rightarrow>
             (polygon2,
              t1 @ [Ev_getInfo, Ev_getInfo, Ev_getInfo, Ev_Polygon (coord polygon), Ev_getThumbURL dims],
              Inl (ExternalServiceError m))
         | Returns urlImg \<Rightarrow>
             (polygon2,
              t1 @ [Ev_getInfo, Ev_getInfo, Ev_getInfo, Ev_Polygon (coord polygon), Ev_getThumbURL dims],
              Inr \<lparr>width = dimensionLng w, height = dimensionLat polygon w, centroid = c,
                   bounds = [\<lparr>lng = maxLng polygon, lat = maxLat polygon\<rparr>,
                             \<lparr>lng = minLng polygon, lat = minLat polygon\<rparr>],
                   time_start = v_start, time_end = v_end, index = v_index,
                   img_url = urlImg\<rparr>)))))"
  by (simp add: runAnalysis_def get_polygon_centroid_unfold [OF assms]
      get_polygon_centroid_again [OF assms] Let_def run_trace_def
      split: sum.splits ext.splits)

lemma runAnalysis_empty:
  "runAnalysis ee [] w dateStart dateEnd = ([], [Ev_runAnalysis, Ev_initialize], Inl TypeError)"
  by (simp add: runAnalysis_def get_polygon_centroid_def)

section \<open>A closing vertex more\<close>

lemma not_js_ne: "\<not> js_ne a b \<longleftrightarrow> a \<noteq> NaN \<and> b \<noteq> NaN \<and> zsim a b"
  by (auto simp: js_ne_def zsim_def)

lemma csim_refl [simp]: "csim p p"
  by (simp add: csim_def)

lemma terms_dbl [simp]:
  "dbl (cross_term first pr)" "dbl (lng_term first pr)" "dbl (lat_term first pr)"
  by (simp_all add: cross_term_def lng_term_def lat_term_def)

lemma cross_term_csim:
  assumes "csim p1 q1" "csim p2 q2"
  shows "zsim (cross_term first (p1, p2)) (cross_term first (q1, q2))"
  using assms unfolding cross_term_def csim_def fst_conv snd_conv
  by (intro zsim_minus zsim_times zsim_refl) simp_all

lemma lng_term_csim:
  assumes "csim p1 q1" "csim p2 q2"
  shows "zsim (lng_term first (p1, p2)) (lng_term first (q1, q2))"
  unfolding lng_term_def
  using assms cross_term_csim [OF assms] unfolding csim_def fst_conv snd_conv
  by (intro zsim_times zsim_minus zsim_plus zsim_refl) simp_all

lemma lat_term_csim:
  assumes "csim p1 q1" "csim p2 q2"
  shows "zsim (lat_term first (p1, p2)) (lat_term first (q1, q2))"
  unfolding lat_term_def
  using assms cross_term_csim [OF assms] unfolding csim_def fst_conv snd_conv
  by (intro zsim_times zsim_minus zsim_plus zsim_refl) simp_all

lemma zero_or_NaN_diff:
  "zsim a b \<Longrightarrow> is_zero (a - b) \<or> a - b = NaN"
  by (cases a; cases b) (auto simp: zsim_def minus_number_def)

lemma zero_or_NaN_times:
  assumes "is_zero a \<or> a = NaN"
  shows "is_zero (a * b) \<or> a * b = NaN" "is_zero (b * a) \<or> b * a = NaN"
  using assms by (cases a; cases b; auto simp: times_number_def)+

lemma zero_or_NaN_minus:
  assumes "is_zero a \<or> a = NaN" "is_zero b \<or> b = NaN"
  shows "is_zero (a - b) \<or> a - b = NaN"
  using assms by (cases a; cases b) (auto simp: minus_number_def)

lemma cross_term_zero_or_NaN:
  assumes "csim p1 first" "csim p2 first"
  shows "is_zero (cross_term first (p1, p2)) \<or> cross_term first (p1, p2) = NaN"
  unfolding cross_term_def fst_conv snd_conv
  using assms unfolding csim_def
  by (intro zero_or_NaN_minus zero_or_NaN_times zero_or_NaN_diff) simp_all

lemma terms_zero_or_NaN:
  assumes "csim p1 first" "csim p2 first"
  shows "is_zero (lng_term first (p1, p2)) \<or> lng_term first (p1, p2) = NaN"
    and "is_zero (lat_term first (p1, p2)) \<or> lat_term first (p1, p2) = NaN"
  unfolding lng_term_def lat_term_def
  by (intro zero_or_NaN_times cross_term_zero_or_NaN assms)+

lemma sum_js_extra:
  assumes "list_all2 zsim xs ys" "\<forall>x \<in> set xs. dbl x" "ys \<noteq> []"
    and "zsim e (hd ys)" "is_zero e \<or> e = NaN"
  shows "sum_js (xs @ [e]) = sum_js ys"
proof (cases "is_zero e")
  case True
  then show ?thesis
    using sum_js_snoc_zero [OF assms(2) True] sum_js_zsim [OF assms(1,2)] by simp
next
  case False
  then have e: "e = NaN" using assms(5) by simp
  then have h: "hd ys = NaN" using assms(4) by simp
  obtain x xs' y ys' where l: "xs = x # xs'" "ys = y # ys'" "zsim x y"
    using assms(1,3) by (cases xs; cases ys) auto
  then have "x = NaN" using h by simp
  then have "NaN \<in> set xs" by (simp add: l)
  from sum_js_snoc_NaN [OF this] sum_js_zsim [OF assms(1,2)]
  show ?thesis by simp
qed

lemma zip_snoc_rotate:
  "os \<noteq> [] \<Longrightarrow> zip (os @ [x]) (y # os) = zip os (y # butlast os) @ [(x, last os)]"
  by (induction os arbitrary: y) auto

lemma pairs_snoc:
  assumes "os \<noteq> []"
  shows "zip (os @ [x]) (last (os @ [x]) # butlast (os @ [x])) =
         zip os (x # butlast os) @ [(x, last os)]"
  using assms by (simp add: zip_snoc_rotate)

lemma list_all2_same: "(\<And>x. R x x) \<Longrightarrow> list_all2 R xs xs"
  by (induction xs) simp_all

lemma sums_closing_vertex:
  assumes "os \<noteq> []" "csim l (hd os)" "csim (last os) (hd os)"
    and T: "\<And>p1 q1 p2 q2. csim p1 q1 \<Longrightarrow> csim p2 q2 \<Longrightarrow> zsim (T (p1, p2)) (T (q1, q2))"
    and D: "\<And>pr. dbl (T pr)"
    and Z: "\<And>p1 p2. csim p1 (hd os) \<Longrightarrow> csim p2 (hd os) \<Longrightarrow>
                is_zero (T (p1, p2)) \<or> T (p1, p2) = NaN"
  shows "sum_js (map T (zip (os @ [l]) (last (os @ [l]) # butlast (os @ [l])))) =
         sum_js (map T (zip os (last os # butlast os)))"
proof -
  obtain p ps where os: "os = p # ps" using assms(1) by (cases os) auto
  have ll: "csim l (last os)"
    using assms(2,3) unfolding csim_def by (blast intro: zsim_trans zsim_sym)
  have z: "zip os (y # butlast os) = (p, y) # zip ps (butlast os)" for y
    unfolding os by (rule zip_Cons_Cons)
  have 1: "list_all2 zsim (map T (zip os (l # butlast os)))
                          (map T (zip os (last os # butlast os)))"
    unfolding z by (simp add: T ll list_all2_same)
  have 2: "\<forall>x \<in> set (map T (zip os (l # butlast os))). dbl x"
    using D by auto
  have 3: "map T (zip os (last os # butlast os)) \<noteq> []"
    unfolding z by simp
  have 4: "zsim (T (l, last os)) (hd (map T (zip os (last os # butlast os))))"
    unfolding z using assms(2) by (simp add: os T)
  have 5: "is_zero (T (l, last os)) \<or> T (l, last os) = NaN"
    by (rule Z [OF assms(2,3)])
  show ?thesis
    unfolding pairs_snoc [OF assms(1)] map_append list.map
    by (rule sum_js_extra [OF 1 2 3 4 5])
qed

lemma ring_sums_closing_vertex:
  assumes "os \<noteq> []" "csim l (hd os)" "csim (last os) (hd os)"
  shows "ring_sums (hd os) (os @ [l]) = ring_sums (hd os) os"
  unfolding ring_sums_terms
  by (simp only: prod.inject
      sums_closing_vertex [OF assms, of "cross_term (hd os)", OF cross_term_csim terms_dbl(1)
        cross_term_zero_or_NaN]
      sums_closing_vertex [OF assms, of "lng_term (hd os)", OF lng_term_csim terms_dbl(2)
        terms_zero_or_NaN(1)]
      sums_closing_vertex [OF assms, of "lat_term (hd os)", OF lat_term_csim terms_dbl(3)
        terms_zero_or_NaN(2)] simp_thms)

lemma sums_last_vertex:
  assumes "os \<noteq> []" "csim l l'"
    and T: "\<And>p1 q1 p2 q2. csim p1 q1 \<Longrightarrow> csim p2 q2 \<Longrightarrow> zsim (T (p1, p2)) (T (q1, q2))"
    and D: "\<And>pr. dbl (T pr)"
  shows "sum_js (map T (zip (os @ [l]) (last (os @ [l]) # butlast (os @ [l])))) =
         sum_js (map T (zip (os @ [l']) (last (os @ [l']) # butlast (os @ [l']))))"
proof -
  obtain p ps where os: "os = p # ps" using assms(1) by (cases os) auto
  have z: "zip os (y # butlast os) = (p, y) # zip ps (butlast os)" for y
    unfolding os by (rule zip_Cons_Cons)
  have 1: "list_all2 zsim (map T (zip os (l # butlast os) @ [(l, last os)]))
                          (map T (zip os (l' # butlast os) @ [(l', last os)]))"
    unfolding z by (simp add: T assms(2) list_all2_same list_all2_appendI)
  have 2: "\<forall>x \<in> set (map T (zip os (l # butlast os) @ [(l, last os)])). dbl x"
    using D by auto
  show ?thesis
    unfolding pairs_snoc [OF assms(1)] by (rule sum_js_zsim [OF 1 2])
qed

lemma ring_sums_last_vertex:
  assumes "os \<noteq> []" "csim l l'"
  shows "ring_sums first (os @ [l]) = ring_sums first (os @ [l'])"
  unfolding ring_sums_terms
  by (simp only: prod.inject
      sums_last_vertex [OF assms, of "cross_term first", OF cross_term_csim terms_dbl(1)]
      sums_last_vertex [OF assms, of "lng_term first", OF lng_term_csim terms_dbl(2)]
      sums_last_vertex [OF assms, of "lat_term first", OF lat_term_csim terms_dbl(3)]
      simp_thms)

lemma closure_closed:
  "\<not> js_ne (lng (hd c)) (lng (last c)) \<Longrightarrow> \<not> js_ne (lat (hd c)) (lat (last c)) \<Longrightarrow> closure c = c"
  by (simp add: closure_def)

lemma closure_open:
  "js_ne (lng (hd c)) (lng (last c)) \<or> js_ne (lat (hd c)) (lat (last c)) \<Longrightarrow>
   closure c = c @ [hd c]"
  by (simp add: closure_def)

lemma ring_sums_closed:
  assumes "2 \<le> length c"
    and "\<not> js_ne (lng (hd c)) (lng (last c))" and "\<not> js_ne (lat (hd c)) (lat (last c))"
  shows "ring_sums (hd c) (closure (butlast c)) = ring_sums (hd c) c"
    and "hd (butlast c) = hd c" and "butlast c \<noteq> []"
proof -
  define os where "os = butlast c"
  have c_ne: "c \<noteq> []" using assms(1) by auto
  show os_ne: "butlast c \<noteq> []" using assms(1) by (cases c) auto
  have c: "c = os @ [last c]"
    using append_butlast_last_id [OF c_ne] by (simp add: os_def)
  show hd: "hd (butlast c) = hd c" using os_ne c unfolding os_def by (metis hd_append2)
  have l: "csim (last c) (hd os)"
    using assms(2,3) hd unfolding csim_def not_js_ne os_def by (simp add: zsim_sym)
  have os_ne': "os \<noteq> []" using os_ne by (simp add: os_def)
  have "ring_sums (hd os) (closure os) = ring_sums (hd os) (os @ [last c])"
  proof (cases "js_ne (lng (hd os)) (lng (last os)) \<or> js_ne (lat (hd os)) (lat (last os))")
    case True
    then have "closure os = os @ [hd os]" by (rule closure_open)
    then show ?thesis using ring_sums_last_vertex [OF os_ne' l] by simp
  next
    case False
    then have cl: "closure os = os" by (simp add: closure_closed)
    from False have "csim (last os) (hd os)"
      by (simp add: csim_def not_js_ne zsim_sym)
    from ring_sums_closing_vertex [OF os_ne' l this] show ?thesis by (simp add: cl)
  qed
  then show "ring_sums (hd c) (closure (butlast c)) = ring_sums (hd c) c"
    using c hd unfolding os_def by simp
qed

section \<open>Traces, arrays and results of a run\<close>

lemma closed_ring_idem: "ps \<noteq> [] \<Longrightarrow> closed_ring (closed_ring ps) = closed_ring ps"
  by (simp add: closed_ring_def)

lemma runAnalysis_trace:
  "\<exists>t'. fst (snd (runAnalysis ee polygon w dateStart dateEnd)) = Ev_runAnalysis # t' \<and>
        Ev_runAnalysis \<notin> set t' \<and> Ev_authenticateViaPrivateKey \<notin> set t'"
proof (cases "polygon = []")
  case True
  then show ?thesis by (simp add: runAnalysis_empty)
next
  case False
  then show ?thesis
    by (simp add: runAnalysis_unfold Let_def run_trace_def split: sum.splits ext.splits)
qed

lemma runAnalysis_rings:
  assumes "Ev_Polygon ring \<in> set (fst (snd (runAnalysis ee polygon w dateStart dateEnd)))"
  shows "ring = coord polygon"
proof (cases "polygon = []")
  case True
  then show ?thesis using assms by (simp add: runAnalysis_empty)
next
  case False
  then show ?thesis
    using assms
    by (auto simp: runAnalysis_unfold Let_def run_trace_def split: sum.splits ext.splits)
qed

lemma runAnalysis_array:
  assumes "polygon \<noteq> []"
  shows "fst (runAnalysis ee polygon w dateStart dateEnd) = closure (closure polygon)"
  using assms
  by (simp add: runAnalysis_unfold Let_def split: sum.splits ext.splits)

lemma runAnalysis_centroid:
  assumes "runAnalysis ee polygon w dateStart dateEnd = (p', t, Inr r)"
  shows "polygon \<noteq> []"
    and "centroid r = centroid_from (hd polygon) (ring_sums (hd polygon) (closure polygon))"
    and "t = run_trace [lng (centroid r), lat (centroid r)] (coord polygon) dateStart dateEnd @
             [Ev_getInfo, Ev_getInfo, Ev_getInfo, Ev_Polygon (coord polygon),
              Ev_getThumbURL [width r, height r]]"
proof -
  show ne: "polygon \<noteq> []" using assms by (auto simp: runAnalysis_empty)
  show "centroid r = centroid_from (hd polygon) (ring_sums (hd polygon) (closure polygon))"
    using assms
    by (auto simp: runAnalysis_unfold [OF ne] Let_def split: sum.splits ext.splits)
  show "t = run_trace [lng (centroid r), lat (centroid r)] (coord polygon) dateStart dateEnd @
             [Ev_getInfo, Ev_getInfo, Ev_getInfo, Ev_Polygon (coord polygon),
              Ev_getThumbURL [width r, height r]]"
    using assms
    by (auto simp: runAnalysis_unfold [OF ne] Let_def split: sum.splits ext.splits)
qed

lemma image_property_demo:
  "image_property demo_service dateStart dateEnd k name = Inr (demo_properties name)"
  by (simp add: image_property_def demo_service_def)

lemma runAnalysis_success:
  assumes "polygon \<noteq> []"
    and "getInfo ee dateStart dateEnd 0 = Returns (Some i0)"
    and "getInfo ee dateStart dateEnd 1 = Returns (Some i1)"
    and "getInfo ee dateStart dateEnd 2 = Returns (Some i2)"
    and "getThumbURL ee [dimensionLng w, dimensionLat polygon w] (coord polygon) = Returns url"
  shows "snd (snd (runAnalysis ee polygon w dateStart dateEnd)) =
     Inr \<lparr>width = dimensionLng w, height = dimensionLat polygon w,
          centroid = centroid_from (hd polygon) (ring_sums (hd polygon) (closure polygon)),
          bounds = [\<lparr>lng = maxLng polygon, lat = maxLat polygon\<rparr>,
                    \<lparr>lng = minLng polygon, lat = minLat polygon\<rparr>],
          time_start = i0 ''system:time_start'', time_end = i1 ''system:time_end'',
          index = i2 ''system:index'', img_url = url\<rparr>"
proof -
  have ip: "image_property ee dateStart dateEnd 0 ''system:time_start'' = Inr (i0 ''system:time_start'')"
    "image_property ee dateStart dateEnd 1 ''system:time_end'' = Inr (i1 ''system:time_end'')"
    "image_property ee dateStart dateEnd 2 ''system:index'' = Inr (i2 ''system:index'')"
    using assms(2-4) by (simp_all add: image_property_def)
  show ?thesis
    unfolding runAnalysis_unfold [OF assms(1)] Let_def ip sum.case assms(5) ext.case
    by simp
qed

lemma demo_property_values:
  "demo_properties ''system:time_start'' = Num (Fin 1000)"
  "demo_properties ''system:time_end'' = Num (Fin 2000)"
  "demo_properties ''system:index'' = Str ''20200101''"
  by (simp_all add: demo_properties_def)

lemma runAnalysis_demo:
  assumes "polygon \<noteq> []"
  shows "snd (snd (runAnalysis demo_service polygon w dateStart dateEnd)) =
     Inr \<lparr>width = dimensionLng w, height = dimensionLat polygon w,
          centroid = centroid_from (hd polygon) (ring_sums (hd polygon) (closure polygon)),
          bounds = [\<lparr>lng = maxLng polygon, lat = maxLat polygon\<rparr>,
                    \<lparr>lng = minLng polygon, lat = minLat polygon\<rparr>],
          time_start = Num (Fin 1000), time_end = Num (Fin 2000), index = Str ''20200101'',
          img_url = ''https://earthengine.example/thumb''\<rparr>"
proof -
  have g: "getInfo demo_service dateStart dateEnd k = Returns (Some demo_properties)" for k
    by (simp add: demo_service_def)
  have u: "getThumbURL demo_service [dimensionLng w, dimensionLat polygon w] (coord polygon) =
           Returns ''https://earthengine.example/thumb''"
    by (simp add: demo_service_def)
  show ?thesis
    unfolding runAnalysis_success [OF assms g g g u] demo_property_values ..
qed

lemma centroid_from_finite:
  assumes "ps \<noteq> []"
  shows "centroid_from (hd (map coord_of ps)) (ring_sums (hd (map coord_of ps)) (closure (map coord_of ps)))
       = \<lparr>lng = shoelace_lngSum ps div (shoelace_area ps * Fin 3) + Fin (fst (hd ps)),
          lat = shoelace_latSum ps div (shoelace_area ps * Fin 3) + Fin (snd (hd ps))\<rparr>"
  using assms unfolding ring_sums_finite [OF assms]
  by (simp add: hd_map coord_of_def)

section \<open>Runs on the sample inputs\<close>

lemma ndviGen_success:
  assumes "authenticateViaPrivateKey ee devKey = AuthSuccess"
  shows "fst (ndviGen ee devKey polygon w dateStart dateEnd) =
           fst (runAnalysis ee polygon w dateStart dateEnd)"
    and "fst (snd (ndviGen ee devKey polygon w dateStart dateEnd)) =
           Ev_authenticateViaPrivateKey # fst (snd (runAnalysis ee polygon w dateStart dateEnd))"
    and "snd (snd (ndviGen ee devKey polygon w dateStart dateEnd)) =
           (case snd (snd (runAnalysis ee polygon w dateStart dateEnd)) of
              Inr ret \<Rightarrow> Resolved ret | Inl e \<Rightarrow> Uncaught e)"
  using assms by (simp_all add: ndviGen_def split: prod.splits sum.splits)

lemma ndviGen_failure:
  assumes "authenticateViaPrivateKey ee devKey = AuthFailure e"
  shows "ndviGen ee devKey polygon w dateStart dateEnd =
           (polygon, [Ev_authenticateViaPrivateKey], Rejected (''Authentication error: '' @ e))"
  using assms by (simp add: ndviGen_def)

lemma demo_auth:
  "authenticateViaPrivateKey demo_service ''valid'' = AuthSuccess"
  "authenticateViaPrivateKey demo_service ''stolen'' = AuthFailure ''invalid_grant''"
  "authenticateViaPrivateKey empty_service ''valid'' = AuthSuccess"
  by (simp_all add: demo_service_def empty_service_def)

lemma rectangle_extrema:
  "Max (set (map fst rectangle)) = 10" "Max (set (map snd rectangle)) = 5"
  "Min (set (map fst rectangle)) = 0" "Min (set (map snd rectangle)) = 0"
  by (simp_all add: rectangle_def)

lemma rectangle_deltas: "delta_lng rectangle = Fin 10" "delta_lat rectangle = Fin 5"
  unfolding delta_lng_def delta_lat_def rectangle_extrema by (simp_all add: js_eval)

lemma rectangle_centroid:
  "centroid_from (hd (map coord_of rectangle))
     (ring_sums (hd (map coord_of rectangle)) (closure (map coord_of rectangle))) =
   \<lparr>lng = Fin 5, lat = Fin (5 / 2)\<rparr>"
proof -
  have ne: "rectangle \<noteq> []" by (simp add: rectangle_def)
  show ?thesis
    unfolding centroid_from_finite [OF ne] rectangle_sums
    by (simp add: rectangle_def js_eval rnd_five_halves)
qed

lemma rectangle_run:
  "snd (snd (runAnalysis demo_service (map coord_of rectangle) (Fin 100) (Fin 0) (Fin 1))) =
     Inr \<lparr>width = Fin 100, height = Fin 50,
          centroid = \<lparr>lng = Fin 5, lat = Fin (5 / 2)\<rparr>,
          bounds = [\<lparr>lng = Fin 10, lat = Fin 5\<rparr>, \<lparr>lng = Fin 0, lat = Fin 0\<rparr>],
          time_start = Num (Fin 1000), time_end = Num (Fin 2000), index = Str ''20200101'',
          img_url = ''https://earthengine.example/thumb''\<rparr>"
proof -
  have ne: "rectangle \<noteq> []" by (simp add: rectangle_def)
  have ne': "map coord_of rectangle \<noteq> []" using ne by simp
  have h: "dimensionLat (map coord_of rectangle) (Fin 100) = Fin 50"
    by (simp add: dimensionLat_finite [OF ne] rectangle_deltas js_eval)
  have w: "dimensionLng (Fin 100) = Fin 100"
    by (simp add: dimensionLng_def)
  show ?thesis
    unfolding runAnalysis_demo [OF ne'] h w rectangle_centroid
      extrema_finite [OF ne] rectangle_extrema ..
qed

lemma runAnalysis_never_named_errors:
  "snd (snd (runAnalysis ee polygon w dateStart dateEnd)) \<noteq> Inl NoImageFoundError"
  "snd (snd (runAnalysis ee polygon w dateStart dateEnd)) \<noteq> Inl DegenerateGeometryError"
proof -
  show "snd (snd (runAnalysis ee polygon w dateStart dateEnd)) \<noteq> Inl NoImageFoundError"
  proof (cases "polygon = []")
    case True
    then show ?thesis by (simp add: runAnalysis_empty)
  next
    case False
    then show ?thesis
      by (simp add: runAnalysis_unfold Let_def image_property_def
          split: sum.splits ext.splits option.splits)
  qed
  show "snd (snd (runAnalysis ee polygon w dateStart dateEnd)) \<noteq> Inl DegenerateGeometryError"
  proof (cases "polygon = []")
    case True
    then show ?thesis by (simp add: runAnalysis_empty)
  next
    case False
    then show ?thesis
      by (simp add: runAnalysis_unfold Let_def image_property_def
          split: sum.splits ext.splits option.splits)
  qed
qed

lemma ndviGen_never_named_errors:
  "snd (snd (ndviGen ee devKey polygon w dateStart dateEnd)) \<noteq> Uncaught NoImageFoundError"
  "snd (snd (ndviGen ee devKey polygon w dateStart dateEnd)) \<noteq> Uncaught DegenerateGeometryError"
  using runAnalysis_never_named_errors [of ee polygon w dateStart dateEnd]
  by (auto simp: ndviGen_def split: auth_result.splits prod.splits sum.splits)

lemma triangle_centroid:
  "centroid_from (hd (map coord_of triangle))
     (ring_sums (hd (map coord_of triangle)) (closure (map coord_of triangle))) =
   \<lparr>lng = Fin (6004799503160661 / 4503599627370496), lat = Fin 1\<rparr>"
proof -
  have ne: "triangle \<noteq> []" by (simp add: triangle_def)
  show ?thesis
    unfolding centroid_from_finite [OF ne] triangle_sums
    by (simp add: triangle_def js_eval rnd_four_thirds)
qed

lemma triangle_closure:
  "closure (map coord_of triangle) = map coord_of [(0, 0), (4, 0), (0, 3), (0, 0)]"
  "closure (map coord_of [(0, 0), (4, 0), (0, 3), (0, 0)]) =
     map coord_of [(0, 0), (4, 0), (0, 3), (0, 0)]"
proof -
  have ne: "triangle \<noteq> []" by (simp add: triangle_def)
  have r: "closed_ring triangle = [(0, 0), (4, 0), (0, 3), (0, 0)]"
    by (simp add: closed_ring_def triangle_def)
  show "closure (map coord_of triangle) = map coord_of [(0, 0), (4, 0), (0, 3), (0, 0)]"
    unfolding closure_coord_of [OF ne] r ..
  have ne': "[(0, 0), (4, 0), (0, 3), (0, 0)] \<noteq> ([] :: (real \<times> real) list)" by simp
  have r': "closed_ring [(0, 0), (4, 0), (0, 3), (0, 0)] = [(0, 0), (4, 0), (0, 3), (0, 0)]"
    by (simp add: closed_ring_def)
  show "closure (map coord_of [(0, 0), (4, 0), (0, 3), (0, 0)]) =
     map coord_of [(0, 0), (4, 0), (0, 3), (0, 0)]"
    unfolding closure_coord_of [OF ne'] r' ..
qed

lemma triangle_coord:
  "coord (map coord_of triangle) = [[Fin 0, Fin 0], [Fin 4, Fin 0], [Fin 0, Fin 3]]"
  by (simp add: coord_def coord_of_def triangle_def)

lemma triangle_open:
  "map coord_of triangle \<noteq> []"
  "js_ne (lng (hd (map coord_of triangle))) (lng (last (map coord_of triangle))) \<or>
   js_ne (lat (hd (map coord_of triangle))) (lat (last (map coord_of triangle)))"
  "lng (hd (map coord_of triangle)) \<noteq> NaN \<and> lat (hd (map coord_of triangle)) \<noteq> NaN"
  "map coord_of triangle @ [hd (map coord_of triangle)] =
     map coord_of [(0, 0), (4, 0), (0, 3), (0, 0)]"
  by (simp_all add: triangle_def coord_of_def js_ne_def)

section \<open>Zero extent, zero area\<close>

lemma extent_zero_all_eq:
  assumes "Max (set (map f ps)) - Min (set (map f ps)) = (0::real)" "p \<in> set ps" "q \<in> set ps"
  shows "f p = f q"
proof -
  have fin: "finite (set (map f ps))" by simp
  have "f p \<in> set (map f ps)" "f q \<in> set (map f ps)" using assms(2,3) by simp_all
  then have "Min (set (map f ps)) \<le> f p" "f p \<le> Max (set (map f ps))"
    "Min (set (map f ps)) \<le> f q" "f q \<le> Max (set (map f ps))"
    using fin by (simp_all only: Min_le Max_ge)
  then show ?thesis using assms(1) by linarith
qed

lemma ring_pairs_in:
  assumes "(p1, p2) \<in> set (ring_pairs r)"
  shows "p1 \<in> set r \<and> p2 \<in> set r"
proof -
  from assms obtain i where i: "i < length r" "p1 = r ! i"
    "p2 = r ! ((i + length r - 1) mod length r)"
    by (auto simp: ring_pairs_def)
  from i(1) have "0 < length r" by (cases r) simp_all
  then have "(i + length r - 1) mod length r < length r" by (rule mod_less_divisor)
  then show ?thesis using i by simp
qed

lemma set_closed_ring: "ps \<noteq> [] \<Longrightarrow> set (closed_ring ps) = set ps"
  by (auto simp: closed_ring_def)

lemma zero_extent_cross_terms:
  assumes "ps \<noteq> []" "lng_extent ps = 0 \<or> lat_extent ps = 0"
    and "pr \<in> set (ring_pairs (map coord_of (closed_ring ps)))"
  shows "is_zero (cross_term (coord_of (hd ps)) pr) \<or> cross_term (coord_of (hd ps)) pr = NaN"
proof -
  obtain p1 p2 where pr: "pr = (p1, p2)" by (cases pr)
  from ring_pairs_in [of p1 p2 "map coord_of (closed_ring ps)"] assms(1,3)
  obtain a b where ab: "a \<in> set ps" "b \<in> set ps" "p1 = coord_of a" "p2 = coord_of b"
    unfolding pr by (auto simp: set_closed_ring)
  have h: "hd ps \<in> set ps" using assms(1) by simp
  have d: "is_zero (Fin x - Fin x)" for x by (simp add: minus_Fin)
  from assms(2) show ?thesis
  proof
    assume "lng_extent ps = 0"
    then have "fst a = fst (hd ps)" "fst b = fst (hd ps)"
      unfolding lng_extent_def using extent_zero_all_eq [of fst ps] ab(1,2) h by blast+
    then have "is_zero (lng p2 - lng (coord_of (hd ps))) \<or> lng p2 - lng (coord_of (hd ps)) = NaN"
      "is_zero (lng p1 - lng (coord_of (hd ps))) \<or> lng p1 - lng (coord_of (hd ps)) = NaN"
      by (simp_all add: ab(3,4) coord_of_def d)
    then show ?thesis
      unfolding pr cross_term_def fst_conv snd_conv
      by (intro zero_or_NaN_minus [OF zero_or_NaN_times(2) zero_or_NaN_times(2)])
  next
    assume "lat_extent ps = 0"
    then have "snd a = snd (hd ps)" "snd b = snd (hd ps)"
      unfolding lat_extent_def using extent_zero_all_eq [of snd ps] ab(1,2) h by blast+
    then have "is_zero (lat p1 - lat (coord_of (hd ps))) \<or> lat p1 - lat (coord_of (hd ps)) = NaN"
      "is_zero (lat p2 - lat (coord_of (hd ps))) \<or> lat p2 - lat (coord_of (hd ps)) = NaN"
      by (simp_all add: ab(3,4) coord_of_def d)
    then show ?thesis
      unfolding pr cross_term_def fst_conv snd_conv
      by (intro zero_or_NaN_minus [OF zero_or_NaN_times(1) zero_or_NaN_times(1)])
  qed
qed

lemma zero_or_NaN_plus:
  assumes "is_zero a \<or> a = NaN" "is_zero b \<or> b = NaN"
  shows "is_zero (a + b) \<or> a + b = NaN"
  using assms by (cases a; cases b) auto

lemma foldl_plus_zero_or_NaN:
  assumes "is_zero a \<or> a = NaN" "\<forall>x \<in> set xs. is_zero x \<or> x = NaN"
  shows "is_zero (foldl (+) a xs) \<or> foldl (+) a xs = NaN"
  using assms
proof (induction xs arbitrary: a)
  case Nil
  then show ?case by simp
next
  case (Cons x xs)
  have "is_zero (a + x) \<or> a + x = NaN"
    using Cons.prems by (intro zero_or_NaN_plus) simp_all
  from Cons.IH [OF this] Cons.prems(2) show ?case by simp
qed

lemma zero_extent_zero_area:
  assumes "ps \<noteq> []" "lng_extent ps = 0 \<or> lat_extent ps = 0"
  shows "is_zero (shoelace_area ps) \<or> shoelace_area ps = NaN"
  unfolding shoelace_area_def sum_js_def
  by (rule foldl_plus_zero_or_NaN) (use zero_extent_cross_terms [OF assms] in auto)

lemma not_finite_div:
  assumes "is_zero d \<or> d = NaN"
  shows "\<not> is_finite (x div d)"
  using assms by (cases x; cases d) (auto simp: divide_number_def signed_inf_def)

lemma not_finite_plus_Fin: "\<not> is_finite a \<Longrightarrow> \<not> is_finite (a + Fin x)"
  by (cases a) simp_all

lemma not_finite_Math_round: "\<not> is_finite a \<Longrightarrow> \<not> is_finite (Math_round a)"
  by (cases a) simp_all

lemma zero_area_centroid_from:
  assumes "ps \<noteq> []" "is_zero (shoelace_area ps) \<or> shoelace_area ps = NaN"
  shows "\<not> is_finite (lng (centroid_from (hd (map coord_of ps))
             (ring_sums (hd (map coord_of ps)) (closure (map coord_of ps)))))"
    and "\<not> is_finite (lat (centroid_from (hd (map coord_of ps))
             (ring_sums (hd (map coord_of ps)) (closure (map coord_of ps)))))"
  unfolding centroid_from_finite [OF assms(1)] Coord.simps
  by (intro not_finite_plus_Fin not_finite_div zero_or_NaN_times(1) assms(2))+

lemma zero_area_centroid:
  assumes "ps \<noteq> []" "is_zero (shoelace_area ps) \<or> shoelace_area ps = NaN"
  shows "\<exists>c. get_polygon_centroid (map coord_of ps) = Inr (map coord_of (closed_ring ps), c) \<and>
             \<not> is_finite (lng c) \<and> \<not> is_finite (lat c)"
proof -
  have ne: "map coord_of ps \<noteq> []" using assms(1) by simp
  show ?thesis
    unfolding get_polygon_centroid_unfold [OF ne] closure_coord_of [OF assms(1), symmetric]
    using zero_area_centroid_from [OF assms] by blast
qed

lemma zero_lng_extent_height:
  assumes "ps \<noteq> []" "lng_extent ps = 0"
  shows "\<not> is_finite (dimensionLat (map coord_of ps) w)"
proof -
  have "Max (set (map fst ps)) = Min (set (map fst ps))"
    using assms(2) by (simp add: lng_extent_def)
  then have "is_zero (delta_lng ps)" by (simp add: delta_lng_def minus_Fin)
  then show ?thesis
    unfolding dimensionLat_finite [OF assms(1)]
    by (intro not_finite_Math_round not_finite_div) simp
qed

lemma ndviGen_resolved_run:
  assumes "snd (snd (ndviGen ee devKey polygon w dateStart dateEnd)) = Resolved r"
  shows "\<exists>p' t. runAnalysis ee polygon w dateStart dateEnd = (p', t, Inr r)"
  using assms
  by (auto simp: ndviGen_def split: auth_result.splits prod.splits sum.splits)

lemma runAnalysis_point:
  assumes "polygon \<noteq> []"
  shows "\<exists>t'. fst (snd (runAnalysis ee polygon w dateStart dateEnd)) =
          Ev_runAnalysis # Ev_initialize #
          Ev_Point [lng (centroid_from (hd polygon) (ring_sums (hd polygon) (closure polygon))),
                    lat (centroid_from (hd polygon) (ring_sums (hd polygon) (closure polygon)))]
          # t'"
  by (simp add: runAnalysis_unfold [OF assms] Let_def run_trace_def split: sum.splits ext.splits)

section \<open>The degenerate sample\<close>

lemma meridian_facts:
  "meridian \<noteq> []" "lng_extent meridian = 0" "lat_extent meridian = 2"
  "Max (set (map fst meridian)) = 7" "Max (set (map snd meridian)) = 2"
  "Min (set (map fst meridian)) = 7" "Min (set (map snd meridian)) = 0"
  by (simp_all add: meridian_def lng_extent_def lat_extent_def)

lemma meridian_centroid:
  "centroid_from (hd (map coord_of meridian))
     (ring_sums (hd (map coord_of meridian)) (closure (map coord_of meridian))) =
     \<lparr>lng = NaN, lat = NaN\<rparr>"
  unfolding centroid_from_finite [OF meridian_facts(1)] meridian_sums by (simp add: js_eval)

lemma meridian_dimensions:
  "dimensionLng (Fin 100) = Fin 100" "dimensionLat (map coord_of meridian) (Fin 100) = PInf"
  unfolding dimensionLat_finite [OF meridian_facts(1)] delta_lng_def delta_lat_def meridian_facts
  by (simp_all add: dimensionLng_def js_eval)

lemma meridian_closure:
  "closure (map coord_of meridian) = map coord_of [(7, 0), (7, 1), (7, 2), (7, 0)]"
  "closure (map coord_of [(7, 0), (7, 1), (7, 2), (7, 0)]) =
     map coord_of [(7, 0), (7, 1), (7, 2), (7, 0)]"
proof -
  have r: "closed_ring meridian = [(7, 0), (7, 1), (7, 2), (7, 0)]"
    by (simp add: closed_ring_def meridian_def)
  show "closure (map coord_of meridian) = map coord_of [(7, 0), (7, 1), (7, 2), (7, 0)]"
    unfolding closure_coord_of [OF meridian_facts(1)] r ..
  have ne': "[(7, 0), (7, 1), (7, 2), (7, 0)] \<noteq> ([] :: (real \<times> real) list)" by simp
  have r': "closed_ring [(7, 0), (7, 1), (7, 2), (7, 0)] = [(7, 0), (7, 1), (7, 2), (7, 0)]"
    by (simp add: closed_ring_def)
  show "closure (map coord_of [(7, 0), (7, 1), (7, 2), (7, 0)]) =
     map coord_of [(7, 0), (7, 1), (7, 2), (7, 0)]"
    unfolding closure_coord_of [OF ne'] r' ..
qed

lemma meridian_coord:
  "coord (map coord_of meridian) = [[Fin 7, Fin 0], [Fin 7, Fin 1], [Fin 7, Fin 2]]"
  by (simp add: coord_def coord_of_def meridian_def)

lemma meridian_run:
  "snd (snd (ndviGen demo_service ''valid'' (map coord_of meridian) (Fin 100) (Fin 0) (Fin 1))) =
     Resolved \<lparr>width = Fin 100, height = PInf,
          centroid = \<lparr>lng = NaN, lat = NaN\<rparr>,
          bounds = [\<lparr>lng = Fin 7, lat = Fin 2\<rparr>, \<lparr>lng = Fin 7, lat = Fin 0\<rparr>],
          time_start = Num (Fin 1000), time_end = Num (Fin 2000), index = Str ''20200101'',
          img_url = ''https://earthengine.example/thumb''\<rparr>"
proof -
  have ne: "meridian \<noteq> []" by (rule meridian_facts(1))
  have ne': "map coord_of meridian \<noteq> []" using ne by simp
  have "snd (snd (runAnalysis demo_service (map coord_of meridian) (Fin 100) (Fin 0) (Fin 1))) =
     Inr \<lparr>width = Fin 100, height = PInf,
          centroid = \<lparr>lng = NaN, lat = NaN\<rparr>,
          bounds = [\<lparr>lng = Fin 7, lat = Fin 2\<rparr>, \<lparr>lng = Fin 7, lat = Fin 0\<rparr>],
          time_start = Num (Fin 1000), time_end = Num (Fin 2000), index = Str ''20200101'',
          img_url = ''https://earthengine.example/thumb''\<rparr>"
    unfolding runAnalysis_demo [OF ne'] meridian_dimensions meridian_centroid
      extrema_finite [OF ne] meridian_facts ..
  then show ?thesis
    by (simp only: ndviGen_success(3) [OF demo_auth(1)] sum.case)
qed

lemma triangle_run:
  "snd (snd (runAnalysis demo_service (map coord_of triangle) (Fin 256) (Fin 0) (Fin 1))) =
     Inr \<lparr>width = Fin 256, height = Fin 192,
          centroid = \<lparr>lng = Fin (6004799503160661 / 4503599627370496), lat = Fin 1\<rparr>,
          bounds = [\<lparr>lng = Fin 4, lat = Fin 3\<rparr>, \<lparr>lng = Fin 0, lat = Fin 0\<rparr>],
          time_start = Num (Fin 1000), time_end = Num (Fin 2000), index = Str ''20200101'',
          img_url = ''https://earthengine.example/thumb''\<rparr>"
proof -
  have ne: "triangle \<noteq> []" by (simp add: triangle_def)
  have ne': "map coord_of triangle \<noteq> []" using ne by simp
  have e: "Max (set (map fst triangle)) = 4" "Max (set (map snd triangle)) = 3"
    "Min (set (map fst triangle)) = 0" "Min (set (map snd triangle)) = 0"
    by (simp_all add: triangle_def)
  have h: "dimensionLat (map coord_of triangle) (Fin 256) = Fin 192"
    unfolding dimensionLat_finite [OF ne] delta_lng_def delta_lat_def e
    by (simp add: js_eval)
  have w: "dimensionLng (Fin 256) = Fin 256"
    by (simp add: dimensionLng_def)
  show ?thesis
    unfolding runAnalysis_demo [OF ne'] h w triangle_centroid extrema_finite [OF ne] e ..
qed

section \<open>Non-zero denominators\<close>




section \<open>Two polygons whose coordinates are not integers\<close>

lemma rnd_sliver_product:
  "rnd (5 / 2 * (3602879701896397 / 36028797018963968)) = Fin (1 / 4)"
proof -
  have p: "pow2 (- 54) = 1 / 18014398509481984" "pow2 (- 2) = 1 / 4" "pow2 (- 1) = 1 / 2"
    by (simp_all add: pow2_def power_int_minus field_simps)
  have "rhe ((5 / 2 * (3602879701896397 / 36028797018963968)) / pow2 (- 2 - 52)) =
        4503599627370496"
    by (simp add: p rhe_def Let_def)
  from rnd_normal [OF _ _ _ _ this] show ?thesis by (simp add: p pow2_def)
qed

lemma sliver_facts:
  "sliver \<noteq> []" "lng_extent sliver = 1 / 2" "lat_extent sliver = 5 / 2"
  "closed_ring sliver =
     [(0, 0), (3602879701896397 / 36028797018963968, 1 / 2), (1 / 2, 5 / 2), (0, 0)]"
  by (simp_all add: sliver_def lng_extent_def lat_extent_def closed_ring_def)

lemma rnd_sample_values:
  "rnd (1 / 2) = Fin (1 / 2)" "rnd (1 / 4) = Fin (1 / 4)"
  "rnd (3602879701896397 / 36028797018963968) = Fin (3602879701896397 / 36028797018963968)"
  "rnd (3602879701896397 / 4503599627370496) = Fin (3602879701896397 / 4503599627370496)"
  using rnd_dyadic [of 1 "- 1"] rnd_dyadic [of 1 "- 2"] rnd_dyadic [of 3602879701896397 "- 55"]
    rnd_dyadic [of 3602879701896397 "- 52"]
  by (simp_all add: pow2_def power_int_minus)

lemma sliver_area: "shoelace_area sliver = Fin 0"
  unfolding shoelace_area_def sliver_facts(4)
  using rnd_sliver_product
  by (simp add: sliver_def ring_pairs_def cross_term_def coord_of_def sum_js_def js_eval
      rnd_sample_values rnd_five_halves upt_rec [of 0] upt_rec [of 1] upt_rec [of 2]
      upt_rec [of 3] upt_rec [of 4])

lemma rnd_plot_quotient:
  "rnd (50 / (3602879701896397 / 4503599627370496)) = Fin (125 / 2)"
proof -
  have p: "pow2 (- 47) = 1 / 140737488355328" "pow2 5 = 32" "pow2 6 = 64"
    by (simp_all add: pow2_def power_int_minus field_simps)
  have "rhe ((50 / (3602879701896397 / 4503599627370496)) / pow2 (5 - 52)) =
        8796093022208000"
    by (simp add: p rhe_def Let_def)
  from rnd_normal [OF _ _ _ _ this] show ?thesis by (simp add: p pow2_def)
qed

lemma plot_facts:
  "plot \<noteq> []"
  "Max (set (map fst plot)) = 3602879701896397 / 4503599627370496"
  "Min (set (map fst plot)) = 0"
  "Max (set (map snd plot)) = 1 / 2" "Min (set (map snd plot)) = 0"
  by (simp_all add: plot_def)

lemma plot_deltas:
  "delta_lng plot = Fin (3602879701896397 / 4503599627370496)" "delta_lat plot = Fin (1 / 2)"
  unfolding delta_lng_def delta_lat_def plot_facts
  by (simp_all add: minus_Fin rnd_sample_values)

lemma plot_quotient:
  "(Fin 100 * delta_lat plot) div delta_lng plot = Fin (125 / 2)"
  unfolding plot_deltas using rnd_plot_quotient by (simp add: js_eval)

lemma plot_height: "dimensionLat (map coord_of plot) (Fin 100) = Fin 63"
  unfolding dimensionLat_finite [OF plot_facts(1)] plot_quotient by simp

lemma plot_exact_height: "round (100 * lat_extent plot / lng_extent plot) = 62"
  unfolding lat_extent_def lng_extent_def plot_facts by (simp add: round_def)

section \<open>A thin triangle\<close>

text \<open>
  On the triangle \<open>(1,0),(1 + 2 ^ - 52,0),(1,1)\<close> the sum \<^verbatim>\<open>p1.lng + p2.lng\<close> of the pair
  \<open>((1,1), (1 + 2 ^ - 52,0))\<close> is a tie and rounds to \<open>2\<close>, the longitude sum stays \<open>0\<close>,
  and the centroid has the longitude \<open>1\<close> of the western edge of the bounding box.
\<close>

lemma needle_rnd:
  "rnd (1 / 4503599627370496) = Fin (1 / 4503599627370496)"
  "rnd (3 / 4503599627370496) = Fin (3 / 4503599627370496)"
  "rnd (6004799503160661 / 18014398509481984) = Fin (6004799503160661 / 18014398509481984)"
  using rnd_dyadic [of 1 "- 52"] rnd_dyadic [of 3 "- 52"] rnd_dyadic [of 6004799503160661 "- 54"]
  by (simp_all add: pow2_def power_int_minus)

lemma rnd_tie_to_even: "rnd (9007199254740993 / 4503599627370496) = Fin 2"
proof -
  have p: "pow2 (- 51) = 1 / 2251799813685248" "pow2 1 = 2" "pow2 2 = 4"
    by (simp_all add: pow2_def power_int_minus field_simps)
  have "rhe ((9007199254740993 / 4503599627370496) / pow2 (1 - 52)) = 4503599627370496"
    by (simp add: p rhe_def Let_def)
  from rnd_normal [OF _ _ _ _ this] show ?thesis by (simp add: p pow2_def)
qed

lemma rnd_one_third: "rnd (1 / 3) = Fin (6004799503160661 / 18014398509481984)"
proof -
  have p: "pow2 (- 54) = 1 / 18014398509481984" "pow2 (- 2) = 1 / 4" "pow2 (- 1) = 1 / 2"
    by (simp_all add: pow2_def power_int_minus field_simps)
  have "rhe ((1 / 3) / pow2 (- 2 - 52)) = 6004799503160661"
    by (simp add: p rhe_def Let_def)
  from rnd_normal [OF _ _ _ _ this] show ?thesis by (simp add: p pow2_def)
qed

lemma needle_sums:
  "shoelace_area needle = Fin (1 / 4503599627370496)"
  "shoelace_lngSum needle = Fin 0"
  "shoelace_latSum needle = Fin (1 / 4503599627370496)"
  using rnd_tie_to_even
  by (simp_all add: needle_def sample_eval needle_rnd)

lemma needle_centroid:
  "get_polygon_centroid (map coord_of needle) =
     Inr (map coord_of [(1, 0), (4503599627370497 / 4503599627370496, 0), (1, 1), (1, 0)],
          \<lparr>lng = Fin 1, lat = Fin (6004799503160661 / 18014398509481984)\<rparr>)"
proof -
  have ne: "needle \<noteq> []" by (simp add: needle_def)
  have r: "closed_ring needle =
           [(1, 0), (4503599627370497 / 4503599627370496, 0), (1, 1), (1, 0)]"
    by (simp add: closed_ring_def needle_def)
  show ?thesis
    unfolding get_polygon_centroid_finite [OF ne] needle_sums r
    using rnd_one_third by (simp add: needle_def js_eval needle_rnd)
qed

lemma needle_bounds:
  "minLng (map coord_of needle) = Fin 1"
  "maxLng (map coord_of needle) = Fin (4503599627370497 / 4503599627370496)"
  "minLat (map coord_of needle) = Fin 0" "maxLat (map coord_of needle) = Fin 1"
proof -
  have ne: "needle \<noteq> []" by (simp add: needle_def)
  show "minLng (map coord_of needle) = Fin 1"
    "maxLng (map coord_of needle) = Fin (4503599627370497 / 4503599627370496)"
    "minLat (map coord_of needle) = Fin 0" "maxLat (map coord_of needle) = Fin 1"
    unfolding extrema_finite [OF ne] by (simp_all add: needle_def)
qed

section \<open>C1: the centroid formula\<close>



section \<open>C2: degenerate polygons\<close>

text \<open>
  The polygon \<open>(7,0),(7,1),(7,2)\<close> has zero longitude extent and zero shoelace area.
  With a client that answers every call the operation resolves: no error is raised, the
  point geometry is built from the centroid \<open>(NaN, NaN)\<close>, the thumbnail is requested
  with the dimensions \<open>[100, Infinity]\<close>, and both values are in the result.
\<close>

theorem degenerate_polygon_counterexample:
  "lng_extent meridian = 0 \<and> shoelace_area meridian = Fin 0 \<and>
   ndviGen demo_service ''valid'' (map coord_of meridian) (Fin 100) (Fin 0) (Fin 1) =
     (map coord_of [(7, 0), (7, 1), (7, 2), (7, 0)],
      [Ev_authenticateViaPrivateKey, Ev_runAnalysis, Ev_initialize, Ev_Point [NaN, NaN],
       Ev_ImageCollection ''LANDSAT/LC08/C01/T1_32DAY_NDVI'',
       Ev_filterDate (Fin 0) (Fin 1), Ev_sort ''CLOUD_COVER'', Ev_first, Ev_Image,
       Ev_visualize, Ev_Polygon [[Fin 7, Fin 0], [Fin 7, Fin 1], [Fin 7, Fin 2]], Ev_clip,
       Ev_getInfo, Ev_getInfo, Ev_getInfo,
       Ev_Polygon [[Fin 7, Fin 0], [Fin 7, Fin 1], [Fin 7, Fin 2]],
       Ev_getThumbURL [Fin 100, PInf]],
      Resolved \<lparr>width = Fin 100, height = PInf,
          centroid = \<lparr>lng = NaN, lat = NaN\<rparr>,
          bounds = [\<lparr>lng = Fin 7, lat = Fin 2\<rparr>, \<lparr>lng = Fin 7, lat = Fin 0\<rparr>],
          time_start = Num (Fin 1000), time_end = Num (Fin 2000), index = Str ''20200101'',
          img_url = ''https://earthengine.example/thumb''\<rparr>)"
proof -
  define run where
    "run = ndviGen demo_service ''valid'' (map coord_of meridian) (Fin 100) (Fin 0) (Fin 1)"
  have ne: "map coord_of meridian \<noteq> []" using meridian_facts(1) by simp
  have 1: "fst run = map coord_of [(7, 0), (7, 1), (7, 2), (7, 0)]"
    unfolding run_def ndviGen_success(1) [OF demo_auth(1)] runAnalysis_array [OF ne]
      meridian_closure ..
  have g: "image_property demo_service (Fin 0) (Fin 1) k name = Inr (demo_properties name)"
    for k name by (rule image_property_demo)
  have u: "getThumbURL demo_service [Fin 100, PInf]
             [[Fin 7, Fin 0], [Fin 7, Fin 1], [Fin 7, Fin 2]] =
           Returns ''https://earthengine.example/thumb''"
    by (simp add: demo_service_def)
  have 2: "fst (snd run) =
      [Ev_authenticateViaPrivateKey, Ev_runAnalysis, Ev_initialize, Ev_Point [NaN, NaN],
       Ev_ImageCollection ''LANDSAT/LC08/C01/T1_32DAY_NDVI'',
       Ev_filterDate (Fin 0) (Fin 1), Ev_sort ''CLOUD_COVER'', Ev_first, Ev_Image,
       Ev_visualize, Ev_Polygon [[Fin 7, Fin 0], [Fin 7, Fin 1], [Fin 7, Fin 2]], Ev_clip,
       Ev_getInfo, Ev_getInfo, Ev_getInfo,
       Ev_Polygon [[Fin 7, Fin 0], [Fin 7, Fin 1], [Fin 7, Fin 2]],
       Ev_getThumbURL [Fin 100, PInf]]"
    unfolding run_def ndviGen_success(2) [OF demo_auth(1)] runAnalysis_unfold [OF ne]
      Let_def g sum.case meridian_centroid meridian_dimensions
    unfolding meridian_coord u ext.case run_trace_def
    by simp
  have 3: "snd (snd run) = Resolved \<lparr>width = Fin 100, height = PInf,
          centroid = \<lparr>lng = NaN, lat = NaN\<rparr>,
          bounds = [\<lparr>lng = Fin 7, lat = Fin 2\<rparr>, \<lparr>lng = Fin 7, lat = Fin 0\<rparr>],
          time_start = Num (Fin 1000), time_end = Num (Fin 2000), index = Str ''20200101'',
          img_url = ''https://earthengine.example/thumb''\<rparr>"
    unfolding run_def by (rule meridian_run)
  have "run =
     (map coord_of [(7, 0), (7, 1), (7, 2), (7, 0)],
      [Ev_authenticateViaPrivateKey, Ev_runAnalysis, Ev_initialize, Ev_Point [NaN, NaN],
       Ev_ImageCollection ''LANDSAT/LC08/C01/T1_32DAY_NDVI'',
       Ev_filterDate (Fin 0) (Fin 1), Ev_sort ''CLOUD_COVER'', Ev_first, Ev_Image,
       Ev_visualize, Ev_Polygon [[Fin 7, Fin 0], [Fin 7, Fin 1], [Fin 7, Fin 2]], Ev_clip,
       Ev_getInfo, Ev_getInfo, Ev_getInfo,
       Ev_Polygon [[Fin 7, Fin 0], [Fin 7, Fin 1], [Fin 7, Fin 2]],
       Ev_getThumbURL [Fin 100, PInf]],
      Resolved \<lparr>width = Fin 100, height = PInf,
          centroid = \<lparr>lng = NaN, lat = NaN\<rparr>,
          bounds = [\<lparr>lng = Fin 7, lat = Fin 2\<rparr>, \<lparr>lng = Fin 7, lat = Fin 0\<rparr>],
          time_start = Num (Fin 1000), time_end = Num (Fin 2000), index = Str ''20200101'',
          img_url = ''https://earthengine.example/thumb''\<rparr>)"
    by (simp only: prod_eq_iff fst_conv snd_conv 1 2 3 simp_thms)
  then show ?thesis
    unfolding run_def using meridian_facts(2) meridian_sums(1) by blast
qed

text \<open>
  C2, as the code has it. The operation never ends with a DegenerateGeometryError: the
  source has no such check. For every polygon with at least one vertex, finite
  coordinates and zero longitude extent, zero latitude extent or a shoelace area that
  the loop accumulates to a zero, \<open>get_polygon_centroid\<close> returns, and both coordinates
  of the centroid are \<^verbatim>\<open>NaN\<close> or an infinity; with zero longitude extent the height is
  \<^verbatim>\<open>NaN\<close> or an infinity for every width; after a successful authentication the point
  geometry is built from that centroid, and a resolved result carries these values.
\<close>

theorem degenerate_polygon_not_rejected:
  "snd (snd (ndviGen ee devKey polygon w dateStart dateEnd)) \<noteq> Uncaught DegenerateGeometryError \<and>
   (ps \<noteq> [] \<and> (lng_extent ps = 0 \<or> lat_extent ps = 0 \<or> is_zero (shoelace_area ps)) \<longrightarrow>
      (\<exists>c. get_polygon_centroid (map coord_of ps) = Inr (map coord_of (closed_ring ps), c) \<and>
           \<not> is_finite (lng c) \<and> \<not> is_finite (lat c)) \<and>
      (lng_extent ps = 0 \<longrightarrow> \<not> is_finite (dimensionLat (map coord_of ps) w)) \<and>
      (authenticateViaPrivateKey ee devKey = AuthSuccess \<longrightarrow>
         (\<exists>(c::Coord) t'. fst (snd (ndviGen ee devKey (map coord_of ps) w dateStart dateEnd)) =
                    Ev_authenticateViaPrivateKey # Ev_runAnalysis # Ev_initialize #
                    Ev_Point [lng c, lat c] # t' \<and>
                  \<not> is_finite (lng c) \<and> \<not> is_finite (lat c))) \<and>
      (snd (snd (ndviGen ee devKey (map coord_of ps) w dateStart dateEnd)) = Resolved r \<longrightarrow>
         \<not> is_finite (lng (centroid r)) \<and> \<not> is_finite (lat (centroid r)) \<and>
         (lng_extent ps = 0 \<longrightarrow> \<not> is_finite (height r))))"
proof (intro conjI impI)
  show "snd (snd (ndviGen ee devKey polygon w dateStart dateEnd)) \<noteq> Uncaught DegenerateGeometryError"
    by (rule ndviGen_never_named_errors)
next
  assume a: "ps \<noteq> [] \<and> (lng_extent ps = 0 \<or> lat_extent ps = 0 \<or> is_zero (shoelace_area ps))"
  then have ne: "ps \<noteq> []"
    and z: "is_zero (shoelace_area ps) \<or> shoelace_area ps = NaN"
    using zero_extent_zero_area [of ps] by blast+
  show "\<exists>c. get_polygon_centroid (map coord_of ps) = Inr (map coord_of (closed_ring ps), c) \<and>
           \<not> is_finite (lng c) \<and> \<not> is_finite (lat c)"
    by (rule zero_area_centroid [OF ne z])
  {
    assume "lng_extent ps = 0"
    then show "\<not> is_finite (dimensionLat (map coord_of ps) w)"
      by (rule zero_lng_extent_height [OF ne])
  }
  {
    assume au: "authenticateViaPrivateKey ee devKey = AuthSuccess"
    have ne': "map coord_of ps \<noteq> []" using ne by simp
    define c where "c = centroid_from (hd (map coord_of ps))
                          (ring_sums (hd (map coord_of ps)) (closure (map coord_of ps)))"
    from runAnalysis_point [OF ne', of ee w dateStart dateEnd]
    obtain t' where "fst (snd (runAnalysis ee (map coord_of ps) w dateStart dateEnd)) =
                     Ev_runAnalysis # Ev_initialize # Ev_Point [lng c, lat c] # t'"
      unfolding c_def by blast
    then have "fst (snd (ndviGen ee devKey (map coord_of ps) w dateStart dateEnd)) =
                    Ev_authenticateViaPrivateKey # Ev_runAnalysis # Ev_initialize #
                    Ev_Point [lng c, lat c] # t' \<and>
                  \<not> is_finite (lng c) \<and> \<not> is_finite (lat c)"
      unfolding ndviGen_success(2) [OF au]
      using zero_area_centroid_from [OF ne z] by (simp add: c_def)
    then show "\<exists>(c::Coord) t'. fst (snd (ndviGen ee devKey (map coord_of ps) w dateStart dateEnd)) =
                    Ev_authenticateViaPrivateKey # Ev_runAnalysis # Ev_initialize #
                    Ev_Point [lng c, lat c] # t' \<and>
                  \<not> is_finite (lng c) \<and> \<not> is_finite (lat c)"
      by - (intro exI, assumption)
  }
  assume res: "snd (snd (ndviGen ee devKey (map coord_of ps) w dateStart dateEnd)) = Resolved r"
  from ndviGen_resolved_run [OF res]
  obtain p' t where run: "runAnalysis ee (map coord_of ps) w dateStart dateEnd = (p', t, Inr r)"
    by blast
  show "\<not> is_finite (lng (centroid r))" "\<not> is_finite (lat (centroid r))"
    unfolding runAnalysis_centroid(2) [OF run]
    by (rule zero_area_centroid_from [OF ne z])+
  assume "lng_extent ps = 0"
  then show "\<not> is_finite (height r)"
    unfolding runAnalysis_returns(2) [OF run]
    by (rule zero_lng_extent_height [OF ne])
qed

text \<open>
  The same polygon \<open>(7,0),(7,1),(7,2)\<close> satisfies the hypotheses by its extent. The
  polygon \<open>(0,0),(0.1,0.5),(0.5,2.5)\<close>, \<open>0.1\<close> being the double
  \<open>3602879701896397 / 2 ^ 55\<close>, satisfies them by its area alone: both extents are
  positive, the product \<^verbatim>\<open>2.5 * 0.1\<close> rounds to \<open>0.25\<close>, the loop accumulates the
  area \<open>0\<close>, and the centroid is not finite.
\<close>

theorem degenerate_polygon_not_rejected_witness:
  "meridian \<noteq> [] \<and> lng_extent meridian = 0 \<and>
   (\<exists>c. get_polygon_centroid (map coord_of meridian) =
           Inr (map coord_of (closed_ring meridian), c) \<and>
        \<not> is_finite (lng c) \<and> \<not> is_finite (lat c)) \<and>
   \<not> is_finite (dimensionLat (map coord_of meridian) (Fin 100)) \<and>
   authenticateViaPrivateKey demo_service ''valid'' = AuthSuccess \<and>
   (\<exists>(c::Coord) t'.
      fst (snd (ndviGen demo_service ''valid'' (map coord_of meridian) (Fin 100) (Fin 0) (Fin 1))) =
        Ev_authenticateViaPrivateKey # Ev_runAnalysis # Ev_initialize #
        Ev_Point [lng c, lat c] # t' \<and>
      \<not> is_finite (lng c) \<and> \<not> is_finite (lat c)) \<and>
   (\<exists>r. snd (snd (ndviGen demo_service ''valid'' (map coord_of meridian) (Fin 100) (Fin 0) (Fin 1))) =
          Resolved r \<and>
        \<not> is_finite (lng (centroid r)) \<and> \<not> is_finite (lat (centroid r)) \<and>
        \<not> is_finite (height r)) \<and>
   sliver \<noteq> [] \<and> lng_extent sliver = 1 / 2 \<and> lat_extent sliver = 5 / 2 \<and>
   is_zero (shoelace_area sliver) \<and>
   (\<exists>c. get_polygon_centroid (map coord_of sliver) =
           Inr (map coord_of (closed_ring sliver), c) \<and>
        \<not> is_finite (lng c) \<and> \<not> is_finite (lat c))"
proof -
  define R where "R = \<lparr>width = Fin 100, height = PInf,
          centroid = \<lparr>lng = NaN, lat = NaN\<rparr>,
          bounds = [\<lparr>lng = Fin 7, lat = Fin 2\<rparr>, \<lparr>lng = Fin 7, lat = Fin 0\<rparr>],
          time_start = Num (Fin 1000), time_end = Num (Fin 2000), index = Str ''20200101'',
          img_url = ''https://earthengine.example/thumb''\<rparr>"
  have res: "snd (snd (ndviGen demo_service ''valid'' (map coord_of meridian) (Fin 100) (Fin 0) (Fin 1))) =
             Resolved R"
    unfolding R_def by (rule meridian_run)
  have h: "meridian \<noteq> [] \<and>
           (lng_extent meridian = 0 \<or> lat_extent meridian = 0 \<or> is_zero (shoelace_area meridian))"
    using meridian_facts(1,2) by blast
  note inst = degenerate_polygon_not_rejected
         [of demo_service "''valid''" "map coord_of meridian" "Fin 100" "Fin 0" "Fin 1" meridian R]
  from inst h meridian_facts(2)
  have 1: "(\<exists>c. get_polygon_centroid (map coord_of meridian) =
           Inr (map coord_of (closed_ring meridian), c) \<and>
        \<not> is_finite (lng c) \<and> \<not> is_finite (lat c)) \<and>
      \<not> is_finite (dimensionLat (map coord_of meridian) (Fin 100))"
    by blast
  from inst h demo_auth(1)
  have 2: "\<exists>(c::Coord) t'.
      fst (snd (ndviGen demo_service ''valid'' (map coord_of meridian) (Fin 100) (Fin 0) (Fin 1))) =
        Ev_authenticateViaPrivateKey # Ev_runAnalysis # Ev_initialize #
        Ev_Point [lng c, lat c] # t' \<and>
      \<not> is_finite (lng c) \<and> \<not> is_finite (lat c)"
    by blast
  from inst h res meridian_facts(2)
  have "\<not> is_finite (lng (centroid R)) \<and> \<not> is_finite (lat (centroid R)) \<and>
        \<not> is_finite (height R)"
    by blast
  with res have 3: "\<exists>r. snd (snd (ndviGen demo_service ''valid'' (map coord_of meridian) (Fin 100) (Fin 0) (Fin 1))) =
          Resolved r \<and>
        \<not> is_finite (lng (centroid r)) \<and> \<not> is_finite (lat (centroid r)) \<and>
        \<not> is_finite (height r)"
    by blast
  have z: "is_zero (shoelace_area sliver)" by (simp add: sliver_area)
  then have h': "sliver \<noteq> [] \<and>
           (lng_extent sliver = 0 \<or> lat_extent sliver = 0 \<or> is_zero (shoelace_area sliver))"
    using sliver_facts(1) by blast
  from degenerate_polygon_not_rejected
         [of demo_service "''valid''" "map coord_of meridian" "Fin 100" "Fin 0" "Fin 1" sliver R] h'
  have 4: "\<exists>c. get_polygon_centroid (map coord_of sliver) =
           Inr (map coord_of (closed_ring sliver), c) \<and>
        \<not> is_finite (lng c) \<and> \<not> is_finite (lat c)"
    by blast
  from 1 2 3 4 z meridian_facts(1,2) demo_auth(1) sliver_facts(1,2,3) show ?thesis by blast
qed

section \<open>C3: the output dimensions\<close>

text \<open>
  C3. For every polygon (at least one vertex, finite coordinates) whose longitude
  extent is not zero and every target width \<open>w\<close>, the width is \<^verbatim>\<open>Math.round(w)\<close> and
  the height is \<^verbatim>\<open>Math.round(w * deltaLat / deltaLng)\<close>, the product and the quotient
  being those of the program on doubles and the two extents the differences, as the
  program subtracts them, of the coordinate-wise extrema over all vertices; these are
  the \<open>width\<close> and \<open>height\<close> of the object a run returns, and when the longitudes are
  doubles the divisor is not a zero. \<^verbatim>\<open>Math.round\<close> of a finite \<open>x\<close> has the value
  \<open>round x\<close>, the integer \<open>\<lfloor>x + 1/2\<rfloor>\<close>. With \<open>deltaLng = 10\<close>, \<open>deltaLat = 5\<close> and
  width 100 the dimensions are \<open>100\<close> and \<open>50\<close>.
\<close>

theorem output_dimensions:
  "(ps \<noteq> [] \<and> lng_extent ps \<noteq> 0 \<longrightarrow>
      dimensionLng w = Math_round w \<and>
      dimensionLat (map coord_of ps) w = Math_round ((w * delta_lat ps) div delta_lng ps) \<and>
      (runAnalysis ee (map coord_of ps) w dateStart dateEnd = (p', t, Inr r) \<longrightarrow>
         width r = Math_round w \<and>
         height r = Math_round ((w * delta_lat ps) div delta_lng ps)) \<and>
      (list_all (\<lambda>p. repr (fst p)) ps \<longrightarrow> \<not> is_zero (delta_lng ps)))
   \<and> val (Math_round (Fin x)) = of_int (round x)
   \<and> (ps \<noteq> [] \<and> delta_lng ps = Fin 10 \<and> delta_lat ps = Fin 5 \<longrightarrow>
        dimensionLng (Fin 100) = Fin 100 \<and> dimensionLat (map coord_of ps) (Fin 100) = Fin 50)"
proof (intro conjI impI)
  assume a: "ps \<noteq> [] \<and> lng_extent ps \<noteq> 0"
  then have ne: "ps \<noteq> []" by simp
  show "dimensionLng w = Math_round w"
    by (rule dimensionLng_def)
  show "dimensionLat (map coord_of ps) w = Math_round ((w * delta_lat ps) div delta_lng ps)"
    by (rule dimensionLat_finite [OF ne])
  {
    assume run: "runAnalysis ee (map coord_of ps) w dateStart dateEnd = (p', t, Inr r)"
    show "width r = Math_round w"
      using runAnalysis_returns(1) [OF run] by (simp add: dimensionLng_def)
    show "height r = Math_round ((w * delta_lat ps) div delta_lng ps)"
      using runAnalysis_returns(2) [OF run] by (simp add: dimensionLat_finite [OF ne])
  }
  assume "list_all (\<lambda>p. repr (fst p)) ps"
  then have "\<forall>p \<in> set ps. repr (fst p)" by (simp add: list_all_iff)
  from delta_lng_nonzero [OF ne this] a show "\<not> is_zero (delta_lng ps)" by simp
next
  show "val (Math_round (Fin x)) = of_int (round x)"
    by (rule Math_round_val)
next
  assume b: "ps \<noteq> [] \<and> delta_lng ps = Fin 10 \<and> delta_lat ps = Fin 5"
  show "dimensionLng (Fin 100) = Fin 100"
    by (simp add: dimensionLng_def)
  show "dimensionLat (map coord_of ps) (Fin 100) = Fin 50"
    using b by (simp add: dimensionLat_finite js_eval)
qed

text \<open>
  The rectangle \<open>(0,0),(10,0),(10,5),(0,5)\<close> at width 100. The rectangle
  \<open>(0,0),(0.8,0),(0.8,0.5),(0,0.5)\<close>, \<open>0.8\<close> being the double \<open>3602879701896397 / 2 ^ 52\<close>,
  at width 100: the quotient \<^verbatim>\<open>50 / 0.8\<close> rounds to the double \<open>62.5\<close> and the height is
  \<open>63\<close>, where the quotient of the real numbers rounds to \<open>62\<close>.
\<close>

theorem output_dimensions_witness:
  "rectangle \<noteq> [] \<and> lng_extent rectangle \<noteq> 0 \<and> list_all (\<lambda>p. repr (fst p)) rectangle \<and>
   delta_lng rectangle = Fin 10 \<and> delta_lat rectangle = Fin 5 \<and>
   dimensionLng (Fin 100) = Fin 100 \<and>
   dimensionLat (map coord_of rectangle) (Fin 100) = Fin 50 \<and>
   snd (snd (runAnalysis demo_service (map coord_of rectangle) (Fin 100) (Fin 0) (Fin 1))) =
     Inr \<lparr>width = Fin 100, height = Fin 50,
          centroid = \<lparr>lng = Fin 5, lat = Fin (5 / 2)\<rparr>,
          bounds = [\<lparr>lng = Fin 10, lat = Fin 5\<rparr>, \<lparr>lng = Fin 0, lat = Fin 0\<rparr>],
          time_start = Num (Fin 1000), time_end = Num (Fin 2000), index = Str ''20200101'',
          img_url = ''https://earthengine.example/thumb''\<rparr> \<and>
   Math_round ((Fin 100 * delta_lat rectangle) div delta_lng rectangle) = Fin 50 \<and>
   \<not> is_zero (delta_lng rectangle) \<and>
   plot \<noteq> [] \<and> lng_extent plot \<noteq> 0 \<and>
   (Fin 100 * delta_lat plot) div delta_lng plot = Fin (125 / 2) \<and>
   dimensionLat (map coord_of plot) (Fin 100) = Fin 63 \<and>
   round (100 * lat_extent plot / lng_extent plot) = 62"
proof -
  define R where "R = \<lparr>width = Fin 100, height = Fin 50,
          centroid = \<lparr>lng = Fin 5, lat = Fin (5 / 2)\<rparr>,
          bounds = [\<lparr>lng = Fin 10, lat = Fin 5\<rparr>, \<lparr>lng = Fin 0, lat = Fin 0\<rparr>],
          time_start = Num (Fin 1000), time_end = Num (Fin 2000), index = Str ''20200101'',
          img_url = ''https://earthengine.example/thumb''\<rparr>"
  define run where "run = runAnalysis demo_service (map coord_of rectangle) (Fin 100) (Fin 0) (Fin 1)"
  have out: "snd (snd run) = Inr R"
    unfolding run_def R_def by (rule rectangle_run)
  then have eq: "run = (fst run, fst (snd run), Inr R)"
    by (metis prod.collapse)
  have h: "rectangle \<noteq> [] \<and> delta_lng rectangle = Fin 10 \<and> delta_lat rectangle = Fin 5"
    by (simp add: rectangle_deltas) (simp add: rectangle_def)
  have h': "rectangle \<noteq> [] \<and> lng_extent rectangle \<noteq> 0"
    by (simp add: lng_extent_def rectangle_extrema) (simp add: rectangle_def)
  have g: "list_all (\<lambda>p. repr (fst p)) rectangle"
    using repr_of_int [of 10] by (simp add: rectangle_def)
  note inst = output_dimensions [of rectangle "Fin 100" demo_service "Fin 0" "Fin 1" "fst run" "fst (snd run)" R]
  from inst h have d: "dimensionLng (Fin 100) = Fin 100 \<and>
      dimensionLat (map coord_of rectangle) (Fin 100) = Fin 50"
    by blast
  from inst h' eq [unfolded run_def]
  have "height R = Math_round ((Fin 100 * delta_lat rectangle) div delta_lng rectangle)"
    unfolding run_def by blast
  then have m: "Math_round ((Fin 100 * delta_lat rectangle) div delta_lng rectangle) = Fin 50"
    by (simp add: R_def)
  from inst h' g have z: "\<not> is_zero (delta_lng rectangle)" by blast
  have p: "plot \<noteq> [] \<and> lng_extent plot \<noteq> 0"
    unfolding lng_extent_def plot_facts by (simp add: plot_def)
  from output_dimensions [of plot "Fin 100"] p
  have "dimensionLat (map coord_of plot) (Fin 100) =
        Math_round ((Fin 100 * delta_lat plot) div delta_lng plot)"
    by blast
  moreover note q = plot_quotient
  ultimately have k: "dimensionLat (map coord_of plot) (Fin 100) = Fin 63"
    by simp
  show ?thesis
    using h h' g d out m z p q k plot_exact_height unfolding run_def R_def by simp
qed

section \<open>C4: the closure step and the caller's array\<close>

text \<open>
  The triangle \<open>(0,0),(4,0),(0,3)\<close> is open. After \<open>get_polygon_centroid\<close>, and
  after the whole operation, the caller's array has four elements: the first vertex
  has been appended to it.
\<close>

theorem caller_polygon_unchanged_counterexample:
  "hd triangle \<noteq> last triangle \<and>
   map_sum id fst (get_polygon_centroid (map coord_of triangle)) =
     Inr (map coord_of [(0, 0), (4, 0), (0, 3), (0, 0)]) \<and>
   fst (ndviGen demo_service ''valid'' (map coord_of triangle) (Fin 256) (Fin 0) (Fin 1)) =
     map coord_of [(0, 0), (4, 0), (0, 3), (0, 0)] \<and>
   map coord_of [(0, 0), (4, 0), (0, 3), (0, 0)] \<noteq> map coord_of triangle \<and>
   length (map coord_of [(0, 0), (4, 0), (0, 3), (0, 0)]) = length (map coord_of triangle) + 1"
proof -
  have ne: "map coord_of triangle \<noteq> []" by (rule triangle_open(1))
  have 1: "map_sum id fst (get_polygon_centroid (map coord_of triangle)) =
     Inr (map coord_of [(0, 0), (4, 0), (0, 3), (0, 0)])"
    unfolding get_polygon_centroid_unfold [OF ne] triangle_closure by simp
  have "fst (runAnalysis demo_service (map coord_of triangle) (Fin 256) (Fin 0) (Fin 1)) =
     map coord_of [(0, 0), (4, 0), (0, 3), (0, 0)]"
    unfolding runAnalysis_array [OF ne] triangle_closure ..
  then have 2: "fst (ndviGen demo_service ''valid'' (map coord_of triangle) (Fin 256) (Fin 0) (Fin 1)) =
     map coord_of [(0, 0), (4, 0), (0, 3), (0, 0)]"
    by (simp only: ndviGen_success(1) [OF demo_auth(1)])
  have 3: "hd triangle \<noteq> last triangle" by (simp add: triangle_def)
  have 4: "map coord_of [(0, 0), (4, 0), (0, 3), (0, 0)] \<noteq> map coord_of triangle \<and>
   length (map coord_of [(0, 0), (4, 0), (0, 3), (0, 0)]) = length (map coord_of triangle) + 1"
    by (simp add: triangle_def)
  from 1 2 3 4 show ?thesis by blast
qed

text \<open>
  C4, as the code has it. For every non-empty polygon whose first and last vertices
  differ, \<^verbatim>\<open>pts.push(first)\<close> works on the caller's array: after
  \<open>get_polygon_centroid\<close> the array is the original followed by its first vertex.
  When no coordinate of the first vertex is \<^verbatim>\<open>NaN\<close>, it is the same array after
  \<open>runAnalysis\<close> and after an operation whose authentication succeeds (the second
  centroid call finds the ring closed). When authentication fails the array is
  untouched.
\<close>

theorem closure_appends_in_place:
  assumes "pts \<noteq> []"
    and "js_ne (lng (hd pts)) (lng (last pts)) \<or> js_ne (lat (hd pts)) (lat (last pts))"
  shows "map_sum id fst (get_polygon_centroid pts) = Inr (pts @ [hd pts]) \<and>
         (lng (hd pts) \<noteq> NaN \<and> lat (hd pts) \<noteq> NaN \<longrightarrow>
            fst (runAnalysis ee pts w dateStart dateEnd) = pts @ [hd pts]) \<and>
         (lng (hd pts) \<noteq> NaN \<and> lat (hd pts) \<noteq> NaN \<and>
          authenticateViaPrivateKey ee devKey = AuthSuccess \<longrightarrow>
            fst (ndviGen ee devKey pts w dateStart dateEnd) = pts @ [hd pts]) \<and>
         (authenticateViaPrivateKey ee devKey = AuthFailure e \<longrightarrow>
            fst (ndviGen ee devKey pts w dateStart dateEnd) = pts)"
proof -
  have c: "closure pts = pts @ [hd pts]" using assms(2) by (rule closure_open)
  have 1: "map_sum id fst (get_polygon_centroid pts) = Inr (pts @ [hd pts])"
    by (simp add: get_polygon_centroid_unfold [OF assms(1)] c)
  have 2: "fst (runAnalysis ee pts w dateStart dateEnd) = pts @ [hd pts]"
    if "lng (hd pts) \<noteq> NaN \<and> lat (hd pts) \<noteq> NaN"
    using that closure_idem [OF assms(1)] c by (simp add: runAnalysis_array [OF assms(1)])
  have 3: "fst (ndviGen ee devKey pts w dateStart dateEnd) = pts @ [hd pts]"
    if "lng (hd pts) \<noteq> NaN \<and> lat (hd pts) \<noteq> NaN \<and>
        authenticateViaPrivateKey ee devKey = AuthSuccess"
    using that 2 by (simp add: ndviGen_success(1))
  have 4: "fst (ndviGen ee devKey pts w dateStart dateEnd) = pts"
    if "authenticateViaPrivateKey ee devKey = AuthFailure e"
    using that by (simp add: ndviGen_failure)
  from 1 2 3 4 show ?thesis by blast
qed

text \<open>
  The triangle again, with a valid and with a refused key.
\<close>

theorem closure_appends_in_place_witness:
  "map coord_of triangle \<noteq> [] \<and>
   (js_ne (lng (hd (map coord_of triangle))) (lng (last (map coord_of triangle))) \<or>
    js_ne (lat (hd (map coord_of triangle))) (lat (last (map coord_of triangle)))) \<and>
   lng (hd (map coord_of triangle)) \<noteq> NaN \<and> lat (hd (map coord_of triangle)) \<noteq> NaN \<and>
   authenticateViaPrivateKey demo_service ''valid'' = AuthSuccess \<and>
   authenticateViaPrivateKey demo_service ''stolen'' = AuthFailure ''invalid_grant'' \<and>
   map_sum id fst (get_polygon_centroid (map coord_of triangle)) =
     Inr (map coord_of [(0, 0), (4, 0), (0, 3), (0, 0)]) \<and>
   fst (runAnalysis demo_service (map coord_of triangle) (Fin 256) (Fin 0) (Fin 1)) =
     map coord_of [(0, 0), (4, 0), (0, 3), (0, 0)] \<and>
   fst (ndviGen demo_service ''valid'' (map coord_of triangle) (Fin 256) (Fin 0) (Fin 1)) =
     map coord_of [(0, 0), (4, 0), (0, 3), (0, 0)] \<and>
   fst (ndviGen demo_service ''stolen'' (map coord_of triangle) (Fin 256) (Fin 0) (Fin 1)) =
     map coord_of triangle"
proof -
  note a = closure_appends_in_place [OF triangle_open(1,2), of demo_service "Fin 256" "Fin 0" "Fin 1"]
  from a [of "''valid''"] triangle_open(3) demo_auth(1)
  have "map_sum id fst (get_polygon_centroid (map coord_of triangle)) =
          Inr (map coord_of triangle @ [hd (map coord_of triangle)]) \<and>
        fst (runAnalysis demo_service (map coord_of triangle) (Fin 256) (Fin 0) (Fin 1)) =
          map coord_of triangle @ [hd (map coord_of triangle)] \<and>
        fst (ndviGen demo_service ''valid'' (map coord_of triangle) (Fin 256) (Fin 0) (Fin 1)) =
          map coord_of triangle @ [hd (map coord_of triangle)]"
    by blast
  moreover from a [of "''stolen''" "''invalid_grant''"] demo_auth(2)
  have "fst (ndviGen demo_service ''stolen'' (map coord_of triangle) (Fin 256) (Fin 0) (Fin 1)) =
          map coord_of triangle"
    by blast
  ultimately show ?thesis
    using triangle_open(1,2,3) demo_auth(1,2) unfolding triangle_open(4) by blast
qed

section \<open>C5: authentication comes first\<close>

text \<open>
  C5. When the verification of the key fails with \<open>e\<close>, the promise is rejected with
  \<open>''Authentication error: '' @ e\<close> and the only call made is the authentication:
  \<open>runAnalysis\<close> is not entered and no imagery call is made. When it succeeds,
  \<open>runAnalysis\<close> is entered exactly once, right after the authentication.
\<close>

theorem authentication_gate:
  "(authenticateViaPrivateKey ee devKey = AuthFailure e \<longrightarrow>
      ndviGen ee devKey polygon w dateStart dateEnd =
        (polygon, [Ev_authenticateViaPrivateKey], Rejected (''Authentication error: '' @ e)))
   \<and> (authenticateViaPrivateKey ee devKey = AuthSuccess \<longrightarrow>
      (\<exists>t'. fst (snd (ndviGen ee devKey polygon w dateStart dateEnd)) =
               Ev_authenticateViaPrivateKey # Ev_runAnalysis # t' \<and>
             Ev_runAnalysis \<notin> set t' \<and> Ev_authenticateViaPrivateKey \<notin> set t'))"
  using runAnalysis_trace [of ee polygon w dateStart dateEnd]
  by (auto simp: ndviGen_failure ndviGen_success(2))

text \<open>
  A client that refuses the key \<open>''stolen''\<close> and accepts the key \<open>''valid''\<close>.
\<close>

theorem authentication_gate_witness:
  "authenticateViaPrivateKey demo_service ''stolen'' = AuthFailure ''invalid_grant'' \<and>
   ndviGen demo_service ''stolen'' (map coord_of square) (Fin 256) (Fin 0) (Fin 1) =
     (map coord_of square, [Ev_authenticateViaPrivateKey],
      Rejected ''Authentication error: invalid_grant'') \<and>
   authenticateViaPrivateKey demo_service ''valid'' = AuthSuccess \<and>
   (\<exists>t'. fst (snd (ndviGen demo_service ''valid'' (map coord_of square) (Fin 256) (Fin 0) (Fin 1))) =
            Ev_authenticateViaPrivateKey # Ev_runAnalysis # t' \<and>
          Ev_runAnalysis \<notin> set t' \<and> Ev_authenticateViaPrivateKey \<notin> set t')"
proof -
  note g = authentication_gate [of demo_service _ _ "map coord_of square" "Fin 256" "Fin 0" "Fin 1"]
  from g [of "''stolen''" "''invalid_grant''"] demo_auth(2)
  have "ndviGen demo_service ''stolen'' (map coord_of square) (Fin 256) (Fin 0) (Fin 1) =
     (map coord_of square, [Ev_authenticateViaPrivateKey],
      Rejected (''Authentication error: '' @ ''invalid_grant''))"
    by blast
  moreover from g [of "''valid''"] demo_auth(1)
  have "\<exists>t'. fst (snd (ndviGen demo_service ''valid'' (map coord_of square) (Fin 256) (Fin 0) (Fin 1))) =
            Ev_authenticateViaPrivateKey # Ev_runAnalysis # t' \<and>
          Ev_runAnalysis \<notin> set t' \<and> Ev_authenticateViaPrivateKey \<notin> set t'"
    by blast
  ultimately show ?thesis using demo_auth(1,2) by simp
qed

section \<open>C6: no image for the date range\<close>

text \<open>
  A client whose collection is empty for the date range: \<^verbatim>\<open>image.getInfo()\<close> is
  \<^verbatim>\<open>null\<close>. The run ends at the first metadata read with a TypeError, not with a
  NoImageFoundError.
\<close>

theorem empty_collection_counterexample:
  "getInfo empty_service (Fin 0) (Fin 1) 0 = Returns None \<and>
   ndviGen empty_service ''valid'' (map coord_of triangle) (Fin 256) (Fin 0) (Fin 1) =
     (map coord_of [(0, 0), (4, 0), (0, 3), (0, 0)],
      [Ev_authenticateViaPrivateKey, Ev_runAnalysis, Ev_initialize,
       Ev_Point [Fin (6004799503160661 / 4503599627370496), Fin 1],
       Ev_ImageCollection ''LANDSAT/LC08/C01/T1_32DAY_NDVI'',
       Ev_filterDate (Fin 0) (Fin 1), Ev_sort ''CLOUD_COVER'', Ev_first, Ev_Image, Ev_visualize,
       Ev_Polygon [[Fin 0, Fin 0], [Fin 4, Fin 0], [Fin 0, Fin 3]], Ev_clip, Ev_getInfo],
      Uncaught TypeError) \<and>
   Uncaught TypeError \<noteq> Uncaught NoImageFoundError"
proof -
  have g: "getInfo empty_service (Fin 0) (Fin 1) 0 = Returns None"
    by (simp add: empty_service_def)
  then have ip: "image_property empty_service (Fin 0) (Fin 1) 0 ''system:time_start'' = Inl TypeError"
    by (simp add: image_property_def)
  have ne: "map coord_of triangle \<noteq> []" by (simp add: triangle_def)
  have "runAnalysis empty_service (map coord_of triangle) (Fin 256) (Fin 0) (Fin 1) =
     (map coord_of [(0, 0), (4, 0), (0, 3), (0, 0)],
      [Ev_runAnalysis, Ev_initialize,
       Ev_Point [Fin (6004799503160661 / 4503599627370496), Fin 1],
       Ev_ImageCollection ''LANDSAT/LC08/C01/T1_32DAY_NDVI'',
       Ev_filterDate (Fin 0) (Fin 1), Ev_sort ''CLOUD_COVER'', Ev_first, Ev_Image, Ev_visualize,
       Ev_Polygon [[Fin 0, Fin 0], [Fin 4, Fin 0], [Fin 0, Fin 3]], Ev_clip, Ev_getInfo],
      Inl TypeError)"
    unfolding runAnalysis_unfold [OF ne] Let_def ip sum.case triangle_centroid
    unfolding triangle_closure triangle_coord run_trace_def
    by simp
  then show ?thesis
    using g by (simp add: ndviGen_def demo_auth(3))
qed

text \<open>
  C6, as the code has it. The operation never ends with a NoImageFoundError: the source
  has no check for an empty collection. When authentication succeeds, the polygon is
  not empty and the first \<^verbatim>\<open>image.getInfo()\<close> is \<^verbatim>\<open>null\<close>, the read of
  \<^verbatim>\<open>.properties\<close> throws a TypeError that escapes from the success callback; this
  happens after the query has been built, at the first \<^verbatim>\<open>getInfo\<close> call, and no
  thumbnail URL is requested.
\<close>

theorem empty_collection_type_error:
  "snd (snd (ndviGen ee devKey polygon w dateStart dateEnd)) \<noteq> Uncaught NoImageFoundError \<and>
   (authenticateViaPrivateKey ee devKey = AuthSuccess \<and> polygon \<noteq> [] \<and>
    getInfo ee dateStart dateEnd 0 = Returns None \<longrightarrow>
      snd (snd (ndviGen ee devKey polygon w dateStart dateEnd)) = Uncaught TypeError \<and>
      (\<exists>t'. fst (snd (ndviGen ee devKey polygon w dateStart dateEnd)) = t' @ [Ev_first, Ev_Image, Ev_visualize, Ev_Polygon (coord polygon), Ev_clip, Ev_getInfo] \<and>
            Ev_getInfo \<notin> set t' \<and> (\<forall>dims. Ev_getThumbURL dims \<notin> set t')))"
proof (intro conjI impI)
  show "snd (snd (ndviGen ee devKey polygon w dateStart dateEnd)) \<noteq> Uncaught NoImageFoundError"
    by (rule ndviGen_never_named_errors)
next
  assume a: "authenticateViaPrivateKey ee devKey = AuthSuccess \<and> polygon \<noteq> [] \<and>
    getInfo ee dateStart dateEnd 0 = Returns None"
  then have ip: "image_property ee dateStart dateEnd 0 ''system:time_start'' = Inl TypeError"
    by (simp add: image_property_def)
  from a have ne: "polygon \<noteq> []" and au: "authenticateViaPrivateKey ee devKey = AuthSuccess"
    by simp_all
  show "snd (snd (ndviGen ee devKey polygon w dateStart dateEnd)) = Uncaught TypeError"
    by (simp add: ndviGen_success(3) [OF au] runAnalysis_unfold [OF ne] Let_def ip)
  show "\<exists>t'. fst (snd (ndviGen ee devKey polygon w dateStart dateEnd)) = t' @ [Ev_first, Ev_Image, Ev_visualize, Ev_Polygon (coord polygon), Ev_clip, Ev_getInfo] \<and>
            Ev_getInfo \<notin> set t' \<and> (\<forall>dims. Ev_getThumbURL dims \<notin> set t')"
    by (simp add: ndviGen_success(2) [OF au] runAnalysis_unfold [OF ne] Let_def ip run_trace_def)
qed

text \<open>
  The client with the empty collection and the triangle.
\<close>

theorem empty_collection_type_error_witness:
  "authenticateViaPrivateKey empty_service ''valid'' = AuthSuccess \<and>
   map coord_of triangle \<noteq> [] \<and>
   getInfo empty_service (Fin 0) (Fin 1) 0 = Returns None \<and>
   snd (snd (ndviGen empty_service ''valid'' (map coord_of triangle) (Fin 256) (Fin 0) (Fin 1))) =
     Uncaught TypeError \<and>
   (\<exists>t'. fst (snd (ndviGen empty_service ''valid'' (map coord_of triangle) (Fin 256) (Fin 0) (Fin 1))) =
            t' @ [Ev_first, Ev_Image, Ev_visualize, Ev_Polygon (coord (map coord_of triangle)), Ev_clip,
                  Ev_getInfo] \<and>
          Ev_getInfo \<notin> set t' \<and> (\<forall>dims. Ev_getThumbURL dims \<notin> set t'))"
proof -
  have h: "authenticateViaPrivateKey empty_service ''valid'' = AuthSuccess \<and>
           map coord_of triangle \<noteq> [] \<and>
           getInfo empty_service (Fin 0) (Fin 1) 0 = Returns None"
    by (simp add: empty_service_def demo_service_def triangle_def)
  from empty_collection_type_error
         [of empty_service "''valid''" "map coord_of triangle" "Fin 256" "Fin 0" "Fin 1"] h
  show ?thesis by blast
qed

section \<open>C7: a polygon that is already closed\<close>

text \<open>
  C7. For every polygon \<open>c\<close> of at least two vertices whose first vertex equals its
  last (\<^verbatim>\<open>!=\<close> is false on both coordinates), \<open>get_polygon_centroid\<close> returns on
  \<open>c\<close> and on the open polygon \<open>butlast c\<close>, and the two centroids are identical.
  The coordinates need not be finite.
\<close>

theorem closed_polygon_same_centroid:
  assumes "2 \<le> length c"
    and "\<not> js_ne (lng (hd c)) (lng (last c))" and "\<not> js_ne (lat (hd c)) (lat (last c))"
  shows "\<exists>ce p1 p2. get_polygon_centroid (butlast c) = Inr (p1, ce) \<and>
                    get_polygon_centroid c = Inr (p2, ce)"
proof -
  note s = ring_sums_closed [OF assms]
  have c_ne: "c \<noteq> []" using assms(1) by auto
  have closed: "get_polygon_centroid c = Inr (c, centroid_from (hd c) (ring_sums (hd c) c))"
    using assms(2,3) c_ne by (simp add: get_polygon_centroid_unfold closure_closed)
  have "get_polygon_centroid (butlast c) =
        Inr (closure (butlast c), centroid_from (hd c) (ring_sums (hd c) c))"
    using s by (simp add: get_polygon_centroid_unfold)
  then show ?thesis using closed by blast
qed

text \<open>
  The closed ring \<open>(0,0),(4,0),(0,3),(0,0)\<close> and the triangle it closes.
\<close>

theorem closed_polygon_same_centroid_witness:
  "2 \<le> length (map coord_of [(0, 0), (4, 0), (0, 3), (0, 0)]) \<and>
   \<not> js_ne (lng (hd (map coord_of [(0, 0), (4, 0), (0, 3), (0, 0)])))
            (lng (last (map coord_of [(0, 0), (4, 0), (0, 3), (0, 0)]))) \<and>
   \<not> js_ne (lat (hd (map coord_of [(0, 0), (4, 0), (0, 3), (0, 0)])))
            (lat (last (map coord_of [(0, 0), (4, 0), (0, 3), (0, 0)]))) \<and>
   butlast (map coord_of [(0, 0), (4, 0), (0, 3), (0, 0)]) = map coord_of triangle \<and>
   (\<exists>ce p1 p2.
      get_polygon_centroid (map coord_of triangle) = Inr (p1, ce) \<and>
      get_polygon_centroid (map coord_of [(0, 0), (4, 0), (0, 3), (0, 0)]) = Inr (p2, ce))"
proof -
  have h: "2 \<le> length (map coord_of [(0, 0), (4, 0), (0, 3), (0, 0)])"
    "\<not> js_ne (lng (hd (map coord_of [(0, 0), (4, 0), (0, 3), (0, 0)])))
            (lng (last (map coord_of [(0, 0), (4, 0), (0, 3), (0, 0)])))"
    "\<not> js_ne (lat (hd (map coord_of [(0, 0), (4, 0), (0, 3), (0, 0)])))
            (lat (last (map coord_of [(0, 0), (4, 0), (0, 3), (0, 0)])))"
    by (simp_all add: js_ne_def coord_of_def)
  have b: "butlast (map coord_of [(0, 0), (4, 0), (0, 3), (0, 0)]) = map coord_of triangle"
    by (simp add: triangle_def)
  from closed_polygon_same_centroid [OF h]
  have "\<exists>ce p1 p2.
      get_polygon_centroid (map coord_of triangle) = Inr (p1, ce) \<and>
      get_polygon_centroid (map coord_of [(0, 0), (4, 0), (0, 3), (0, 0)]) = Inr (p2, ce)"
    unfolding b .
  then show ?thesis using h b by blast
qed

section \<open>C9: bounds and metadata of the result\<close>

text \<open>
  C9. When the operation resolves with \<open>r\<close>, \<open>bounds r\<close> has two elements, the
  corner of the maxima first and the corner of the minima second (for finite
  coordinates, the coordinate-wise \<open>Max\<close> and \<open>Min\<close> over the vertices), and the three
  metadata fields are the properties \<open>''system:time_start''\<close>,
  \<open>''system:time_end''\<close> and \<open>''system:index''\<close> as the three \<^verbatim>\<open>getInfo()\<close>
  calls returned them.
\<close>

theorem result_bounds_and_metadata:
  assumes "ndviGen ee devKey polygon w dateStart dateEnd = (p', t, Resolved r)"
  shows "bounds r = [\<lparr>lng = maxLng polygon, lat = maxLat polygon\<rparr>,
                     \<lparr>lng = minLng polygon, lat = minLat polygon\<rparr>] \<and>
         (\<exists>i0 i1 i2. getInfo ee dateStart dateEnd 0 = Returns (Some i0) \<and>
                     getInfo ee dateStart dateEnd 1 = Returns (Some i1) \<and>
                     getInfo ee dateStart dateEnd 2 = Returns (Some i2) \<and>
                     time_start r = i0 ''system:time_start'' \<and>
                     time_end r = i1 ''system:time_end'' \<and>
                     index r = i2 ''system:index'') \<and>
         (ps \<noteq> [] \<and> polygon = map coord_of ps \<longrightarrow>
            bounds r = [coord_of (Max (set (map fst ps)), Max (set (map snd ps))),
                        coord_of (Min (set (map fst ps)), Min (set (map snd ps)))])"
proof -
  from assms obtain t' where run: "runAnalysis ee polygon w dateStart dateEnd = (p', t', Inr r)"
    unfolding ndviGen_resolved by blast
  have b: "bounds r = [\<lparr>lng = maxLng polygon, lat = maxLat polygon\<rparr>,
                     \<lparr>lng = minLng polygon, lat = minLat polygon\<rparr>]"
    by (rule runAnalysis_returns(3) [OF run])
  have "ps \<noteq> [] \<and> polygon = map coord_of ps \<longrightarrow>
            bounds r = [coord_of (Max (set (map fst ps)), Max (set (map snd ps))),
                        coord_of (Min (set (map fst ps)), Min (set (map snd ps)))]"
    using b by (auto simp: extrema_finite coord_of_def)
  then show ?thesis using b runAnalysis_returns(4) [OF run] by blast
qed

text \<open>
  The rectangle \<open>(0,0),(10,0),(10,5),(0,5)\<close> with the client that answers every call.
\<close>

theorem result_bounds_and_metadata_witness:
  "snd (snd (ndviGen demo_service ''valid'' (map coord_of rectangle) (Fin 100) (Fin 0) (Fin 1))) =
     Resolved \<lparr>width = Fin 100, height = Fin 50,
          centroid = \<lparr>lng = Fin 5, lat = Fin (5 / 2)\<rparr>,
          bounds = [\<lparr>lng = Fin 10, lat = Fin 5\<rparr>, \<lparr>lng = Fin 0, lat = Fin 0\<rparr>],
          time_start = Num (Fin 1000), time_end = Num (Fin 2000), index = Str ''20200101'',
          img_url = ''https://earthengine.example/thumb''\<rparr> \<and>
   getInfo demo_service (Fin 0) (Fin 1) 0 = Returns (Some demo_properties) \<and>
   demo_properties ''system:time_start'' = Num (Fin 1000) \<and>
   demo_properties ''system:time_end'' = Num (Fin 2000) \<and>
   demo_properties ''system:index'' = Str ''20200101'' \<and>
   [coord_of (Max (set (map fst rectangle)), Max (set (map snd rectangle))),
    coord_of (Min (set (map fst rectangle)), Min (set (map snd rectangle)))] =
   [\<lparr>lng = Fin 10, lat = Fin 5\<rparr>, \<lparr>lng = Fin 0, lat = Fin 0\<rparr>]"
proof -
  define R where "R = \<lparr>width = Fin 100, height = Fin 50,
          centroid = \<lparr>lng = Fin 5, lat = Fin (5 / 2)\<rparr>,
          bounds = [\<lparr>lng = Fin 10, lat = Fin 5\<rparr>, \<lparr>lng = Fin 0, lat = Fin 0\<rparr>],
          time_start = Num (Fin 1000), time_end = Num (Fin 2000), index = Str ''20200101'',
          img_url = ''https://earthengine.example/thumb''\<rparr>"
  define run where "run = ndviGen demo_service ''valid'' (map coord_of rectangle) (Fin 100) (Fin 0) (Fin 1)"
  have out: "snd (snd run) = Resolved R"
    unfolding run_def R_def by (simp add: ndviGen_success(3) [OF demo_auth(1)] rectangle_run)
  then have eq: "run = (fst run, fst (snd run), Resolved R)"
    by (metis prod.collapse)
  have ne: "rectangle \<noteq> []" by (simp add: rectangle_def)
  from result_bounds_and_metadata [OF eq [unfolded run_def], of rectangle] ne
  have "bounds R = [coord_of (Max (set (map fst rectangle)), Max (set (map snd rectangle))),
                    coord_of (Min (set (map fst rectangle)), Min (set (map snd rectangle)))]"
    by blast
  then have "[coord_of (Max (set (map fst rectangle)), Max (set (map snd rectangle))),
    coord_of (Min (set (map fst rectangle)), Min (set (map snd rectangle)))] =
   [\<lparr>lng = Fin 10, lat = Fin 5\<rparr>, \<lparr>lng = Fin 0, lat = Fin 0\<rparr>]"
    by (simp add: R_def)
  moreover have "getInfo demo_service (Fin 0) (Fin 1) 0 = Returns (Some demo_properties)"
    by (simp add: demo_service_def)
  ultimately show ?thesis
    using out unfolding run_def R_def by (simp add: demo_property_values)
qed

section \<open>C10: one invocation, one polygon\<close>

text \<open>
  C10. In one run, the second call of \<open>get_polygon_centroid\<close>, on the array the first
  call left, returns the point of the first; every ring sent to the client is the ring
  of the polygon as the caller passed it; and the object returned has the centroid of
  the first call and the dimensions and bounds of the polygon as passed, with the
  trace of calls built from the same values.
\<close>

theorem one_invocation_one_polygon:
  assumes "get_polygon_centroid polygon = Inr (polygon1, c1)"
  shows "(\<exists>polygon2. get_polygon_centroid polygon1 = Inr (polygon2, c1)) \<and>
         (\<forall>ring. Ev_Polygon ring \<in> set (fst (snd (runAnalysis ee polygon w dateStart dateEnd)))
                 \<longrightarrow> ring = coord polygon) \<and>
         (runAnalysis ee polygon w dateStart dateEnd = (p', t, Inr r) \<longrightarrow>
            centroid r = c1 \<and>
            width r = dimensionLng w \<and>
            height r = dimensionLat polygon w \<and>
            bounds r = [\<lparr>lng = maxLng polygon, lat = maxLat polygon\<rparr>,
                        \<lparr>lng = minLng polygon, lat = minLat polygon\<rparr>] \<and>
            t = [Ev_runAnalysis, Ev_initialize, Ev_Point [lng c1, lat c1],
                 Ev_ImageCollection ''LANDSAT/LC08/C01/T1_32DAY_NDVI'',
                 Ev_filterDate dateStart dateEnd, Ev_sort ''CLOUD_COVER'', Ev_first, Ev_Image,
                 Ev_visualize, Ev_Polygon (coord polygon), Ev_clip,
                 Ev_getInfo, Ev_getInfo, Ev_getInfo, Ev_Polygon (coord polygon),
                 Ev_getThumbURL [dimensionLng w, dimensionLat polygon w]])"
proof -
  have ne: "polygon \<noteq> []"
    using assms by (auto simp: get_polygon_centroid_def)
  have "Inr (closure polygon,
             centroid_from (hd polygon) (ring_sums (hd polygon) (closure polygon))) =
        (Inr (polygon1, c1) :: error + Coord list \<times> Coord)"
    using assms unfolding get_polygon_centroid_unfold [OF ne] .
  then have p1: "polygon1 = closure polygon"
    and c1: "c1 = centroid_from (hd polygon) (ring_sums (hd polygon) (closure polygon))"
    by blast+
  have "\<exists>polygon2. get_polygon_centroid polygon1 = Inr (polygon2, c1)"
    unfolding p1 c1 get_polygon_centroid_again [OF ne] by blast
  moreover have "\<forall>ring. Ev_Polygon ring \<in> set (fst (snd (runAnalysis ee polygon w dateStart dateEnd)))
                 \<longrightarrow> ring = coord polygon"
    using runAnalysis_rings by blast
  moreover {
    assume run: "runAnalysis ee polygon w dateStart dateEnd = (p', t, Inr r)"
    have "centroid r = c1" using runAnalysis_centroid(2) [OF run] c1 by simp
    moreover note runAnalysis_returns(1,2,3) [OF run]
    moreover have "t = [Ev_runAnalysis, Ev_initialize, Ev_Point [lng c1, lat c1],
                 Ev_ImageCollection ''LANDSAT/LC08/C01/T1_32DAY_NDVI'',
                 Ev_filterDate dateStart dateEnd, Ev_sort ''CLOUD_COVER'', Ev_first, Ev_Image,
                 Ev_visualize, Ev_Polygon (coord polygon), Ev_clip,
                 Ev_getInfo, Ev_getInfo, Ev_getInfo, Ev_Polygon (coord polygon),
                 Ev_getThumbURL [dimensionLng w, dimensionLat polygon w]]"
      using runAnalysis_centroid(3) [OF run] \<open>centroid r = c1\<close> runAnalysis_returns(1,2) [OF run]
      by (simp add: run_trace_def)
    ultimately have "centroid r = c1 \<and>
            width r = dimensionLng w \<and>
            height r = dimensionLat polygon w \<and>
            bounds r = [\<lparr>lng = maxLng polygon, lat = maxLat polygon\<rparr>,
                        \<lparr>lng = minLng polygon, lat = minLat polygon\<rparr>] \<and>
            t = [Ev_runAnalysis, Ev_initialize, Ev_Point [lng c1, lat c1],
                 Ev_ImageCollection ''LANDSAT/LC08/C01/T1_32DAY_NDVI'',
                 Ev_filterDate dateStart dateEnd, Ev_sort ''CLOUD_COVER'', Ev_first, Ev_Image,
                 Ev_visualize, Ev_Polygon (coord polygon), Ev_clip,
                 Ev_getInfo, Ev_getInfo, Ev_getInfo, Ev_Polygon (coord polygon),
                 Ev_getThumbURL [dimensionLng w, dimensionLat polygon w]]"
      by blast
  }
  ultimately show ?thesis by blast
qed

text \<open>
  The triangle \<open>(0,0),(4,0),(0,3)\<close>, which the first call closes.
\<close>

theorem one_invocation_one_polygon_witness:
  "get_polygon_centroid (map coord_of triangle) =
     Inr (map coord_of [(0, 0), (4, 0), (0, 3), (0, 0)], \<lparr>lng = Fin (6004799503160661 / 4503599627370496), lat = Fin 1\<rparr>) \<and>
   (\<exists>polygon2. get_polygon_centroid (map coord_of [(0, 0), (4, 0), (0, 3), (0, 0)]) =
                 Inr (polygon2, \<lparr>lng = Fin (6004799503160661 / 4503599627370496), lat = Fin 1\<rparr>)) \<and>
   snd (snd (runAnalysis demo_service (map coord_of triangle) (Fin 256) (Fin 0) (Fin 1))) =
     Inr \<lparr>width = Fin 256, height = Fin 192,
          centroid = \<lparr>lng = Fin (6004799503160661 / 4503599627370496), lat = Fin 1\<rparr>,
          bounds = [\<lparr>lng = Fin 4, lat = Fin 3\<rparr>, \<lparr>lng = Fin 0, lat = Fin 0\<rparr>],
          time_start = Num (Fin 1000), time_end = Num (Fin 2000), index = Str ''20200101'',
          img_url = ''https://earthengine.example/thumb''\<rparr> \<and>
   fst (snd (runAnalysis demo_service (map coord_of triangle) (Fin 256) (Fin 0) (Fin 1))) =
     [Ev_runAnalysis, Ev_initialize, Ev_Point [Fin (6004799503160661 / 4503599627370496), Fin 1],
      Ev_ImageCollection ''LANDSAT/LC08/C01/T1_32DAY_NDVI'',
      Ev_filterDate (Fin 0) (Fin 1), Ev_sort ''CLOUD_COVER'', Ev_first, Ev_Image,
      Ev_visualize, Ev_Polygon [[Fin 0, Fin 0], [Fin 4, Fin 0], [Fin 0, Fin 3]], Ev_clip,
      Ev_getInfo, Ev_getInfo, Ev_getInfo,
      Ev_Polygon [[Fin 0, Fin 0], [Fin 4, Fin 0], [Fin 0, Fin 3]],
      Ev_getThumbURL [Fin 256, Fin 192]]"
proof -
  define R where "R = \<lparr>width = Fin 256, height = Fin 192,
          centroid = \<lparr>lng = Fin (6004799503160661 / 4503599627370496), lat = Fin 1\<rparr>,
          bounds = [\<lparr>lng = Fin 4, lat = Fin 3\<rparr>, \<lparr>lng = Fin 0, lat = Fin 0\<rparr>],
          time_start = Num (Fin 1000), time_end = Num (Fin 2000), index = Str ''20200101'',
          img_url = ''https://earthengine.example/thumb''\<rparr>"
  define run where "run = runAnalysis demo_service (map coord_of triangle) (Fin 256) (Fin 0) (Fin 1)"
  have ne: "map coord_of triangle \<noteq> []" by (simp add: triangle_def)
  have c: "get_polygon_centroid (map coord_of triangle) =
     Inr (map coord_of [(0, 0), (4, 0), (0, 3), (0, 0)], \<lparr>lng = Fin (6004799503160661 / 4503599627370496), lat = Fin 1\<rparr>)"
    unfolding get_polygon_centroid_unfold [OF ne] triangle_centroid
    unfolding triangle_closure ..
  have out: "snd (snd run) = Inr R"
    unfolding run_def R_def by (rule triangle_run)
  then have eq: "run = (fst run, fst (snd run), Inr R)"
    by (metis prod.collapse)
  note inst = one_invocation_one_polygon
      [OF c, of demo_service "Fin 256" "Fin 0" "Fin 1" "fst run" "fst (snd run)" R]
  from inst have 1: "\<exists>polygon2. get_polygon_centroid (map coord_of [(0, 0), (4, 0), (0, 3), (0, 0)]) =
                 Inr (polygon2, \<lparr>lng = Fin (6004799503160661 / 4503599627370496), lat = Fin 1\<rparr>)"
    by blast
  have d: "dimensionLat (map coord_of triangle) (Fin 256) = Fin 192"
    "dimensionLng (Fin 256) = Fin 256"
    using triangle_run
    by (simp_all add: runAnalysis_demo [OF ne])
  from inst eq [unfolded run_def]
  have "fst (snd run) =
     [Ev_runAnalysis, Ev_initialize, Ev_Point [lng \<lparr>lng = Fin (6004799503160661 / 4503599627370496), lat = Fin 1\<rparr>, lat \<lparr>lng = Fin (6004799503160661 / 4503599627370496), lat = Fin 1\<rparr>],
      Ev_ImageCollection ''LANDSAT/LC08/C01/T1_32DAY_NDVI'',
      Ev_filterDate (Fin 0) (Fin 1), Ev_sort ''CLOUD_COVER'', Ev_first, Ev_Image,
      Ev_visualize, Ev_Polygon (coord (map coord_of triangle)), Ev_clip,
      Ev_getInfo, Ev_getInfo, Ev_getInfo,
      Ev_Polygon (coord (map coord_of triangle)),
      Ev_getThumbURL [dimensionLng (Fin 256), dimensionLat (map coord_of triangle) (Fin 256)]]"
    unfolding run_def by blast
  then have 2: "fst (snd run) =
     [Ev_runAnalysis, Ev_initialize, Ev_Point [Fin (6004799503160661 / 4503599627370496), Fin 1],
      Ev_ImageCollection ''LANDSAT/LC08/C01/T1_32DAY_NDVI'',
      Ev_filterDate (Fin 0) (Fin 1), Ev_sort ''CLOUD_COVER'', Ev_first, Ev_Image,
      Ev_visualize, Ev_Polygon [[Fin 0, Fin 0], [Fin 4, Fin 0], [Fin 0, Fin 3]], Ev_clip,
      Ev_getInfo, Ev_getInfo, Ev_getInfo,
      Ev_Polygon [[Fin 0, Fin 0], [Fin 4, Fin 0], [Fin 0, Fin 3]],
      Ev_getThumbURL [Fin 256, Fin 192]]"
    unfolding triangle_coord d by simp
  from c 1 out 2 show ?thesis unfolding run_def R_def by blast
qed

end
